theory Spec2Isabelle
  imports
    Complex_Main
    "HOL-Library.Multiset"
    "HOL-Library.Char_ord"
    "HOL-Library.List_Lexorder"
    "HOL-Library.Option_ord"
    "HOL-Library.Product_Lexorder"
begin

section \<open>Data model\<close>

text \<open>
  The program (\<^verbatim>\<open>generate_pjm_dashboard.py\<close>) keeps its data in pandas frames.
  A frame is modelled by its column labels and its rows; a price cell is a
  \<open>real option\<close>, where \<open>None\<close> stands for pandas' missing value (NaN) and
  prices are exact reals. A timestamp is the record of the calendar fields that
  the program reads through \<^verbatim>\<open>.dt\<close> (year, month, hour) together with the day.
\<close>

record datetime =
  year :: int
  month :: int
  day :: int
  hour :: int

type_synonym cell = "real option"

text \<open>
  The frame \<^verbatim>\<open>df\<close> that \<^verbatim>\<open>build_dashboard\<close> receives: \<open>zone_cols\<close> is
  \<^verbatim>\<open>[c for c in df.columns if c != "Date"]\<close>, and each row carries its \<^verbatim>\<open>Date\<close> and
  the cells of the zone columns, in column order.
\<close>

record dataframe =
  zone_cols :: "string list"
  rows :: "(datetime \<times> cell list) list"

text \<open>A row of \<^verbatim>\<open>stacked\<close>, whose columns the program names Date, Zone, Price.\<close>

record long_record =
  Date :: datetime
  Zone :: string
  Price :: real

text \<open>A frame is rectangular: every row has one cell per zone column.\<close>

definition rectangular :: "dataframe \<Rightarrow> bool" where
  "rectangular df = list_all (\<lambda>r. length (snd r) = length (zone_cols df)) (rows df)"

definition no_missing :: "dataframe \<Rightarrow> bool" where
  "no_missing df = list_all (\<lambda>r. list_all (\<lambda>c. c \<noteq> None) (snd r)) (rows df)"

section \<open>Long form\<close>

text \<open>
  \<^verbatim>\<open>stacked = df.set_index("Date")[zone_cols].stack().reset_index()\<close>:
  \<^verbatim>\<open>DataFrame.stack\<close> walks the frame row by row and, within a row, column by
  column, and (its default \<^verbatim>\<open>dropna=True\<close>) leaves out every cell that is missing.
\<close>

definition stack_row :: "string list \<Rightarrow> datetime \<times> cell list \<Rightarrow> long_record list" where
  "stack_row zs r =
     List.map_filter
       (\<lambda>(z, c). map_option (\<lambda>p. \<lparr>Date = fst r, Zone = z, Price = p\<rparr>) c)
       (zip zs (snd r))"

definition stacked :: "dataframe \<Rightarrow> long_record list" where
  "stacked df = concat (map (stack_row (zone_cols df)) (rows df))"

text \<open>The cells of a frame that hold a value, counted.\<close>

definition present_cells :: "dataframe \<Rightarrow> nat" where
  "present_cells df = sum_list (map (\<lambda>r. length (filter (\<lambda>c. c \<noteq> None) (snd r))) (rows df))"

section \<open>Statistics of pandas\<close>

text \<open>
  The reductions the program calls on a price column, with pandas' defaults: missing
  values are skipped before the reduction, and a reduction of no value is itself
  missing. \<open>present\<close> is the list of values a list of cells holds.
\<close>

definition present :: "cell list \<Rightarrow> real list" where
  "present cs = List.map_filter id cs"

text \<open>\<^verbatim>\<open>Series.mean()\<close>: the sum over the count.\<close>

definition mean :: "real list \<Rightarrow> real option" where
  "mean xs = (if xs = [] then None else Some (sum_list xs / real (length xs)))"

text \<open>\<^verbatim>\<open>Series.min()\<close> and \<^verbatim>\<open>Series.max()\<close>.\<close>

definition min_of :: "real list \<Rightarrow> real option" where
  "min_of xs = (if xs = [] then None else Some (Min (set xs)))"

definition max_of :: "real list \<Rightarrow> real option" where
  "max_of xs = (if xs = [] then None else Some (Max (set xs)))"

text \<open>
  \<^verbatim>\<open>Series.std()\<close>: pandas' default is \<^verbatim>\<open>ddof=1\<close>, the sum of squared deviations
  from the mean over the count less one, and missing when there are fewer than two values.
\<close>

definition ssqdm :: "real list \<Rightarrow> real" where
  "ssqdm xs = (let m = sum_list xs / real (length xs) in sum_list (map (\<lambda>x. (x - m)\<^sup>2) xs))"

definition var_of :: "real list \<Rightarrow> real option" where
  "var_of xs = (if length xs < 2 then None else Some (ssqdm xs / real (length xs - 1)))"

definition std :: "real list \<Rightarrow> real option" where
  "std xs = map_option sqrt (var_of xs)"

text \<open>
  \<^verbatim>\<open>Series.quantile(q)\<close>: pandas' default is \<^verbatim>\<open>interpolation='linear'\<close>. With the
  values in ascending order and \<open>h = (n - 1) * q\<close>, the result lies between the order
  statistics at \<open>\<lfloor>h\<rfloor>\<close> and \<open>\<lfloor>h\<rfloor> + 1\<close>, at the fraction \<open>h - \<lfloor>h\<rfloor>\<close> of the way.
\<close>

definition quantile :: "real \<Rightarrow> real list \<Rightarrow> real option" where
  "quantile q xs =
     (if xs = [] then None
      else let s = sort xs;
               h = real (length xs - 1) * q;
               lo = nat \<lfloor>h\<rfloor>;
               hi = min (lo + 1) (length xs - 1)
           in Some (s ! lo + (h - real lo) * (s ! hi - s ! lo)))"

text \<open>\<^verbatim>\<open>Series.median()\<close>: the middle value, or the mean of the two middle values.\<close>

definition median :: "real list \<Rightarrow> real option" where
  "median xs =
     (if xs = [] then None
      else let s = sort xs; n = length xs
           in if odd n then Some (s ! (n div 2))
              else Some ((s ! (n div 2 - 1) + s ! (n div 2)) / 2))"

section \<open>Grouping and the grouped views\<close>

text \<open>
  \<^verbatim>\<open>groupby(key)\<close> (default \<^verbatim>\<open>sort=True\<close>): one group per distinct key, the groups in
  ascending key order, and within a group the records in their original order. Labels
  are compared as Python compares strings, character by character.
\<close>

definition groupby :: "('a \<Rightarrow> 'k::linorder) \<Rightarrow> 'a list \<Rightarrow> ('k \<times> 'a list) list" where
  "groupby key xs = map (\<lambda>k. (k, filter (\<lambda>x. key x = k) xs)) (sort (remdups (map key xs)))"

text \<open>\<^verbatim>\<open>.reindex(labels)\<close>: one row per label, in the order given; a label that the
  table lacks gets a row of missing values.\<close>

definition reindex :: "'k list \<Rightarrow> ('k \<times> 'v) list \<Rightarrow> ('k \<times> 'v option) list" where
  "reindex labels tbl = map (\<lambda>k. (k, map_of tbl k)) labels"

text \<open>The cells of the frame in the order \<^verbatim>\<open>stack\<close> visits them, missing ones included.\<close>

definition cells_of :: "dataframe \<Rightarrow> (datetime \<times> string \<times> cell) list" where
  "cells_of df =
     concat (map (\<lambda>r. map (\<lambda>(z, c). (fst r, z, c)) (zip (zone_cols df) (snd r))) (rows df))"

text \<open>The column of a zone: \<^verbatim>\<open>df[z]\<close>.\<close>

definition column :: "dataframe \<Rightarrow> string \<Rightarrow> cell list" where
  "column df z = map (\<lambda>(d, z', c). c) (filter (\<lambda>(d, z', c). z' = z) (cells_of df))"

text \<open>
  The cells of the frame whose timestamp and zone have the key \<open>k\<close> under \<open>f\<close>, missing
  ones included, in the order of the frame.
\<close>

definition cells_with :: "dataframe \<Rightarrow> (datetime \<Rightarrow> string \<Rightarrow> 'k) \<Rightarrow> 'k \<Rightarrow> cell list" where
  "cells_with df f k = map (\<lambda>(d, z, c). c) (filter (\<lambda>(d, z, c). f d z = k) (cells_of df))"

text \<open>
  The KPI block \<^verbatim>\<open>overall\<close> (its numeric entries): every statistic is taken over
  \<^verbatim>\<open>stacked["Price"]\<close>.
\<close>

record overall =
  Hours :: nat
  Zones :: nat
  ov_Mean :: cell
  ov_Median :: cell
  ov_Min :: cell
  ov_Max :: cell
  ov_P95 :: cell
  ov_Stdev :: cell

definition overall_kpis :: "dataframe \<Rightarrow> overall" where
  "overall_kpis df =
     (let ps = map Price (stacked df)
      in \<lparr>Hours = length (rows df), Zones = length (zone_cols df),
          ov_Mean = mean ps, ov_Median = median ps, ov_Min = min_of ps, ov_Max = max_of ps,
          ov_P95 = quantile (95 / 100) ps, ov_Stdev = std ps\<rparr>)"

text \<open>
  \<^verbatim>\<open>stacked.groupby("Zone").agg(Mean=..., Median=..., Min=..., Max=..., P95=..., Stdev=...)\<close>:
  one row per zone label that occurs in \<^verbatim>\<open>stacked\<close>, in label order.
\<close>

record zone_row =
  zs_Zone :: string
  Mean :: cell
  Median :: cell
  zs_Min :: cell
  zs_Max :: cell
  P95 :: cell
  Stdev :: cell

definition zone_stats :: "string \<Rightarrow> real list \<Rightarrow> zone_row" where
  "zone_stats z ps =
     \<lparr>zs_Zone = z, Mean = mean ps, Median = median ps, zs_Min = min_of ps, zs_Max = max_of ps,
      P95 = quantile (95 / 100) ps, Stdev = std ps\<rparr>"

definition zone_agg :: "long_record list \<Rightarrow> zone_row list" where
  "zone_agg long = map (\<lambda>(z, g). zone_stats z (map Price g)) (groupby Zone long)"

text \<open>
  \<^verbatim>\<open>monthly = long_df.groupby(["Zone", "Year", "Month"], as_index=False)["Price"].mean()\<close>.
\<close>

record monthly_row =
  m_Zone :: string
  m_Year :: int
  m_Month :: int
  m_Price :: cell

definition monthly :: "long_record list \<Rightarrow> monthly_row list" where
  "monthly long =
     map (\<lambda>((z, y, m), g). \<lparr>m_Zone = z, m_Year = y, m_Month = m, m_Price = mean (map Price g)\<rparr>)
       (groupby (\<lambda>r. (Zone r, year (Date r), month (Date r))) long)"

text \<open>\<^verbatim>\<open>hod = stacked.assign(Hour=...).groupby("Hour")["Price"].mean().reset_index()\<close>.\<close>

definition hod :: "long_record list \<Rightarrow> (int \<times> cell) list" where
  "hod long = map (\<lambda>(h, g). (h, mean (map Price g))) (groupby (\<lambda>r. hour (Date r)) long)"

text \<open>
  \<^verbatim>\<open>.dt.day_name()\<close>: the weekday of a date of the proleptic Gregorian calendar, from
  the count of days since 1970-01-01 (a Thursday).
\<close>

definition days_from_civil :: "datetime \<Rightarrow> int" where
  "days_from_civil t =
     (let y = (if month t \<le> 2 then year t - 1 else year t);
          era = y div 400;
          yoe = y - era * 400;
          mp = (month t + 9) mod 12;
          doy = (153 * mp + 2) div 5 + day t - 1;
          doe = yoe * 365 + yoe div 4 - yoe div 100 + doy
      in era * 146097 + doe - 719468)"

definition dow_order :: "string list" where
  "dow_order = [''Monday'', ''Tuesday'', ''Wednesday'', ''Thursday'', ''Friday'', ''Saturday'',
                ''Sunday'']"

definition day_name :: "datetime \<Rightarrow> string" where
  "day_name t = dow_order ! nat ((days_from_civil t + 3) mod 7)"

text \<open>
  \<^verbatim>\<open>dow = stacked.assign(DOW=...).groupby("DOW")["Price"].mean().reindex([...]).reset_index()\<close>.
\<close>

definition dow :: "long_record list \<Rightarrow> (string \<times> cell) list" where
  "dow long =
     map (\<lambda>(n, v). (n, case v of None \<Rightarrow> None | Some m \<Rightarrow> m))
       (reindex dow_order
          (map (\<lambda>(n, g). (n, mean (map Price g))) (groupby (\<lambda>r. day_name (Date r)) long)))"

section \<open>Inter-zonal spread\<close>

text \<open>
  \<^verbatim>\<open>spread = pd.DataFrame({"Date": wide.index, "Max": wide.max(axis=1), "Min": wide.min(axis=1)})\<close>
  and \<^verbatim>\<open>spread["Spread"] = spread["Max"] - spread["Min"]\<close>. The row reductions skip missing
  cells (\<^verbatim>\<open>skipna=True\<close>); a subtraction with a missing operand is missing.
\<close>

record spread_row =
  sp_Date :: datetime
  sp_Max :: cell
  sp_Min :: cell
  Spread :: cell

definition nan_sub :: "cell \<Rightarrow> cell \<Rightarrow> cell" where
  "nan_sub a b = (case (a, b) of (Some x, Some y) \<Rightarrow> Some (x - y) | _ \<Rightarrow> None)"

definition spread_of_row :: "datetime \<times> cell list \<Rightarrow> spread_row" where
  "spread_of_row r =
     (let mx = max_of (present (snd r)); mn = min_of (present (snd r))
      in \<lparr>sp_Date = fst r, sp_Max = mx, sp_Min = mn, Spread = nan_sub mx mn\<rparr>)"

definition spread :: "dataframe \<Rightarrow> spread_row list" where
  "spread df = map spread_of_row (rows df)"

section \<open>Correlation between zones\<close>

text \<open>
  The entries of the correlation matrix are floats: \<^verbatim>\<open>wide.corr()\<close> fills an array of
  floats and \<^verbatim>\<open>.astype(float)\<close> keeps it one. A float is a number or NaN.
\<close>

datatype float64 = Float real | NaN

text \<open>Python's \<^verbatim>\<open>==\<close> on two floats: NaN is equal to no float, itself included.\<close>

fun float_eq :: "float64 \<Rightarrow> float64 \<Rightarrow> bool" where
  "float_eq (Float x) (Float y) = (x = y)"
| "float_eq _ _ = False"

text \<open>
  \<^verbatim>\<open>corr = wide.corr().astype(float)\<close>: Pearson correlation with pandas' defaults
  (\<^verbatim>\<open>method='pearson'\<close>, \<^verbatim>\<open>min_periods=1\<close>). For a pair of columns only the rows in which
  both hold a value are used. With fewer observations than \<^verbatim>\<open>min_periods\<close>, or when
  the divisor (the root of the product of the two sums of squared deviations) is 0, the
  entry is NaN. pandas computes the entry of columns \<open>i\<close> and \<open>j \<le> i\<close> once,
  with column \<open>i\<close> as the first variable, and stores it at \<open>(i, j)\<close> and at \<open>(j, i)\<close>.
\<close>

definition complete_pairs :: "cell list \<Rightarrow> cell list \<Rightarrow> (real \<times> real) list" where
  "complete_pairs xs ys =
     List.map_filter
       (\<lambda>(a, b). case a of None \<Rightarrow> None
                  | Some x \<Rightarrow> (case b of None \<Rightarrow> None | Some y \<Rightarrow> Some (x, y)))
       (zip xs ys)"

definition pearson :: "(real \<times> real) list \<Rightarrow> float64" where
  "pearson ps =
     (let nobs = length ps in
      if nobs < 1 then NaN
      else let meanx = sum_list (map fst ps) / real nobs;
               meany = sum_list (map snd ps) / real nobs;
               ssqdm_x = sum_list (map (\<lambda>(x, y). (x - meanx)\<^sup>2) ps);
               ssqdm_y = sum_list (map (\<lambda>(x, y). (y - meany)\<^sup>2) ps);
               covxy = sum_list (map (\<lambda>(x, y). (x - meanx) * (y - meany)) ps);
               divisor = sqrt (ssqdm_x * ssqdm_y)
           in if divisor \<noteq> 0 then Float (covxy / divisor) else NaN)"

definition corr :: "dataframe \<Rightarrow> float64 list list" where
  "corr df =
     map (\<lambda>(i, a).
        map (\<lambda>(j, b).
           if j \<le> i then pearson (complete_pairs (column df a) (column df b))
           else pearson (complete_pairs (column df b) (column df a)))
          (enumerate 0 (zone_cols df)))
       (enumerate 0 (zone_cols df))"

section \<open>Rolling mean and volatility\<close>

text \<open>
  \<^verbatim>\<open>avg2 = df.set_index("Date")[zone_cols].mean(axis=1)\<close> is the mean of each row over
  the values present in it (missing for a row with none), and
  \<^verbatim>\<open>roll["Avg"].rolling(24 * 30, min_periods=24)\<close> gives at each position the trailing
  window of at most 720 positions that ends there. The window's statistic is computed
  over the values present in the window, and is missing when the window holds fewer
  than \<^verbatim>\<open>min_periods\<close> of them.
\<close>

definition window :: "nat \<Rightarrow> 'a list \<Rightarrow> nat \<Rightarrow> 'a list" where
  "window w xs i = drop (Suc i - w) (take (Suc i) xs)"

definition rolling :: "nat \<Rightarrow> nat \<Rightarrow> (real list \<Rightarrow> cell) \<Rightarrow> cell list \<Rightarrow> cell list" where
  "rolling w min_periods f xs =
     map (\<lambda>i. let obs = present (window w xs i)
              in if length obs < min_periods then None else f obs)
       [0..<length xs]"

record roll_frame =
  roll_index :: "datetime list"
  Avg :: "cell list"
  RollMean30d :: "cell list"
  RollVol30d :: "cell list"

definition roll :: "dataframe \<Rightarrow> roll_frame" where
  "roll df =
     (let avg2 = map (\<lambda>r. mean (present (snd r))) (rows df)
      in \<lparr>roll_index = map fst (rows df),
          Avg = avg2,
          RollMean30d = rolling (24 * 30) 24 mean avg2,
          RollVol30d = rolling (24 * 30) 24 std avg2\<rparr>)"

section \<open>Seasonal statistics\<close>

text \<open>What the program can raise: a failed dictionary lookup, and the error of the loader.\<close>

datatype error = KeyError int | ValueError string | DateParseError

text \<open>Applying a function that may raise to each element in turn: the first error ends it.\<close>

fun map_result :: "('a \<Rightarrow> error + 'b) \<Rightarrow> 'a list \<Rightarrow> error + 'b list" where
  "map_result f [] = Inr []"
| "map_result f (x # xs) =
     (case f x of
        Inl e \<Rightarrow> Inl e
      | Inr y \<Rightarrow> (case map_result f xs of Inl e \<Rightarrow> Inl e | Inr ys \<Rightarrow> Inr (y # ys)))"

text \<open>\<^verbatim>\<open>season_of_month\<close>: a lookup in a dictionary literal, which raises on any other key.\<close>

definition season_of_month :: "int \<Rightarrow> error + string" where
  "season_of_month m =
     (case map_of
        [(12, ''Winter''), (1, ''Winter''), (2, ''Winter''),
         (3, ''Spring''), (4, ''Spring''), (5, ''Spring''),
         (6, ''Summer''), (7, ''Summer''), (8, ''Summer''),
         (9, ''Autumn''), (10, ''Autumn''), (11, ''Autumn'')] m of
        None \<Rightarrow> Inl (KeyError m)
      | Some s \<Rightarrow> Inr s)"

text \<open>
  \<^verbatim>\<open>seasonal["Season"] = seasonal["Date"].dt.month.map(season_of_month)\<close>, then
  \<^verbatim>\<open>seasonal.groupby("Season")["Price"].agg(["mean", "median", "std", "min", "max"])\<close>
  and \<^verbatim>\<open>.reindex(["Winter", "Spring", "Summer", "Autumn"])\<close>: a season with no group
  gets a row whose statistics are all missing.
\<close>

record season_row =
  Season :: string
  s_mean :: cell
  s_median :: cell
  s_std :: cell
  s_min :: cell
  s_max :: cell

definition season_stats :: "string \<Rightarrow> real list \<Rightarrow> season_row" where
  "season_stats s ps =
     \<lparr>Season = s, s_mean = mean ps, s_median = median ps, s_std = std ps,
      s_min = min_of ps, s_max = max_of ps\<rparr>"

definition season_order :: "string list" where
  "season_order = [''Winter'', ''Spring'', ''Summer'', ''Autumn'']"

definition seasonal :: "long_record list \<Rightarrow> error + season_row list" where
  "seasonal long =
     (case map_result (\<lambda>r. season_of_month (month (Date r))) long of
        Inl e \<Rightarrow> Inl e
      | Inr ss \<Rightarrow>
          Inr (map (\<lambda>(s, v). case v of
                               None \<Rightarrow> \<lparr>Season = s, s_mean = None, s_median = None,
                                        s_std = None, s_min = None, s_max = None\<rparr>
                             | Some row \<Rightarrow> row)
                 (reindex season_order
                    (map (\<lambda>(s, g). (s, season_stats s (map (Price \<circ> snd) g)))
                       (groupby fst (zip ss long))))))"

section \<open>Sorting, the zone summary and the extremes\<close>

text \<open>
  \<^verbatim>\<open>sort_values(by, ascending=...)\<close> with pandas' default \<^verbatim>\<open>kind='quicksort'\<close>. The
  result holds the same rows, ordered by the key. The default kind is not a stable
  sort (pandas documents only \<^verbatim>\<open>'mergesort'\<close> and \<^verbatim>\<open>'stable'\<close> as stable), so the order
  among rows of equal key is not determined by the call: \<open>sort_values by asc xs ys\<close>
  says that \<open>ys\<close> is a possible result of sorting \<open>xs\<close>. On the option type the
  order puts \<open>None\<close> below every value, which is where a descending sort puts a
  missing key (\<^verbatim>\<open>na_position='last'\<close>).
\<close>

definition sort_values :: "('a \<Rightarrow> 'k::linorder) \<Rightarrow> bool \<Rightarrow> 'a list \<Rightarrow> 'a list \<Rightarrow> bool" where
  "sort_values by ascending xs ys \<longleftrightarrow>
     mset ys = mset xs \<and>
     sorted_wrt (\<lambda>a b. if ascending then by a \<le> by b else by b \<le> by a) ys"

text \<open>The result a stable sort gives, which is one of the possible results.\<close>

definition stable_sort_values :: "('a \<Rightarrow> 'k::linorder) \<Rightarrow> bool \<Rightarrow> 'a list \<Rightarrow> 'a list" where
  "stable_sort_values by ascending xs =
     (if ascending then sort_key by xs else rev (sort_key by (rev xs)))"

text \<open>
  \<^verbatim>\<open>zone_summary["Mean"].rank(method="first", ascending=False)\<close>: the rank of a value is
  one more than the number of values greater than it, plus the number of equal values
  that stand before it; a missing value has a missing rank. \<^verbatim>\<open>.astype(int)\<close> raises
  on a missing rank.
\<close>

definition rank_first_desc :: "cell list \<Rightarrow> nat option list" where
  "rank_first_desc vs =
     map (\<lambda>i. case vs ! i of
                None \<Rightarrow> None
              | Some v \<Rightarrow>
                  Some (1 + length (filter (\<lambda>u. Some v < u) vs)
                          + length (filter (\<lambda>u. u = Some v) (take i vs))))
       [0..<length vs]"

definition astype_int :: "nat option list \<Rightarrow> error + nat list" where
  "astype_int rs =
     (case those rs of
        None \<Rightarrow> Inl (ValueError ''Cannot convert non-finite values (NA or inf) to integer'')
      | Some ns \<Rightarrow> Inr ns)"

text \<open>
  \<^verbatim>\<open>zone_summary\<close>: the grouped table sorted by \<^verbatim>\<open>Mean\<close>, descending, with the column
  \<^verbatim>\<open>Rank\<close> added. \<open>zone_summary df ys out\<close>: \<open>ys\<close> is a possible result of the sort and
  \<open>out\<close> is the table with its ranks, or the error of the cast.
\<close>

definition with_rank :: "zone_row list \<Rightarrow> error + (zone_row \<times> nat) list" where
  "with_rank ys =
     (case astype_int (rank_first_desc (map Mean ys)) of
        Inl e \<Rightarrow> Inl e
      | Inr ns \<Rightarrow> Inr (zip ys ns))"

definition zone_summary ::
    "dataframe \<Rightarrow> zone_row list \<Rightarrow> error + (zone_row \<times> nat) list \<Rightarrow> bool" where
  "zone_summary df ys out \<longleftrightarrow>
     sort_values Mean False (zone_agg (stacked df)) ys \<and> out = with_rank ys"

text \<open>
  \<^verbatim>\<open>idxmax = stacked.sort_values("Price", ascending=False).head(20)\<close> and
  \<^verbatim>\<open>idxmin = stacked.sort_values("Price", ascending=True).head(20)\<close>.
\<close>

inductive extremes ::
    "long_record list \<Rightarrow> long_record list \<times> long_record list \<Rightarrow> bool" where
  "sort_values Price False long hi \<Longrightarrow> sort_values Price True long lo \<Longrightarrow>
     extremes long (take 20 hi, take 20 lo)"

section \<open>The loader\<close>

text \<open>
  \<^verbatim>\<open>df = pd.read_excel(xlsx_path, sheet_name=sheet_name)\<close>: the sheet as read, with its
  column labels and its rows, each row holding one value per column.
\<close>

datatype xl = Num real | Text string | Stamp datetime | Blank

record sheet =
  sh_columns :: "string list"
  sh_rows :: "xl list list"

text \<open>
  The value of a row in the column \<^verbatim>\<open>"Date"\<close>: \<^verbatim>\<open>df["Date"]\<close>, row by row.
  \<^verbatim>\<open>read_excel\<close> gives the columns distinct labels, so the label names one column, at
  whatever position it stands.
\<close>

definition date_cell :: "string list \<Rightarrow> xl list \<Rightarrow> xl" where
  "date_cell cols r = (case map_of (zip cols r) ''Date'' of None \<Rightarrow> Blank | Some v \<Rightarrow> v)"

text \<open>Timestamps compare by year, then month, day and hour.\<close>

definition timestamp_key :: "datetime \<Rightarrow> int \<times> int \<times> int \<times> int" where
  "timestamp_key t = (year t, month t, day t, hour t)"

text \<open>
  The frame \<^verbatim>\<open>load_data\<close> returns: the labels of the sheet, and the rows, each with
  its parsed \<^verbatim>\<open>Date\<close>.
\<close>

record loaded =
  ld_columns :: "string list"
  ld_rows :: "(datetime \<times> xl list) list"

definition schema_error :: error where
  "schema_error = ValueError ''Input sheet must contain a 'Date' column.''"

text \<open>
  \<^verbatim>\<open>load_data\<close>. The check of the column comes first and raises the \<^verbatim>\<open>ValueError\<close>
  above. \<^verbatim>\<open>pd.to_datetime\<close> is the library's parser, a parameter here: it gives a
  timestamp for a value, or \<open>None\<close> where it raises. \<^verbatim>\<open>df.sort_values("Date")\<close> then
  reorders the rows; \<open>load_data to_datetime sh out\<close> says that \<open>out\<close> is a possible
  outcome of the call: the error of the check, the error of the parser, or a frame.
\<close>

inductive load_data :: "(xl \<Rightarrow> datetime option) \<Rightarrow> sheet \<Rightarrow> error + loaded \<Rightarrow> bool" where
  no_date:
    "''Date'' \<notin> set (sh_columns sh) \<Longrightarrow> load_data to_datetime sh (Inl schema_error)"
| bad_date:
    "''Date'' \<in> set (sh_columns sh) \<Longrightarrow>
     those (map (\<lambda>r. to_datetime (date_cell (sh_columns sh) r)) (sh_rows sh)) = None \<Longrightarrow>
     load_data to_datetime sh (Inl DateParseError)"
| sorted_frame:
    "''Date'' \<in> set (sh_columns sh) \<Longrightarrow>
     those (map (\<lambda>r. to_datetime (date_cell (sh_columns sh) r)) (sh_rows sh)) = Some ds \<Longrightarrow>
     sort_values (\<lambda>p. timestamp_key (fst p)) True (zip ds (sh_rows sh)) rs \<Longrightarrow>
     load_data to_datetime sh (Inr \<lparr>ld_columns = sh_columns sh, ld_rows = rs\<rparr>)"

text \<open>
  \<^verbatim>\<open>main\<close>: \<^verbatim>\<open>df = load_data(...)\<close>, then \<^verbatim>\<open>build_dashboard(df=df, ...)\<close>. An exception of
  the loader ends the run; \<open>build_dashboard\<close> stands for whatever the builder computes
  from the loaded frame.
\<close>

inductive main ::
    "(xl \<Rightarrow> datetime option) \<Rightarrow> (loaded \<Rightarrow> 'd \<Rightarrow> bool) \<Rightarrow> sheet \<Rightarrow> error + 'd \<Rightarrow> bool" where
  raised:
    "load_data to_datetime sh (Inl e) \<Longrightarrow> main to_datetime build_dashboard sh (Inl e)"
| built:
    "load_data to_datetime sh (Inr df) \<Longrightarrow> build_dashboard df d \<Longrightarrow>
     main to_datetime build_dashboard sh (Inr d)"

section \<open>Example frames\<close>

definition t0 :: datetime where
  "t0 = \<lparr>year = 2021, month = 1, day = 1, hour = 0\<rparr>"

definition t1 :: datetime where
  "t1 = \<lparr>year = 2021, month = 1, day = 1, hour = 1\<rparr>"

definition df_full :: dataframe where
  "df_full = \<lparr>zone_cols = [''A'', ''B''],
              rows = [(t0, [Some 10, Some 20]), (t1, [Some 12, Some 18])]\<rparr>"

definition df_gap :: dataframe where
  "df_gap = \<lparr>zone_cols = [''A'', ''B''], rows = [(t0, [Some 10, None])]\<rparr>"

definition df_const :: dataframe where
  "df_const = \<lparr>zone_cols = [''A'', ''B''],
               rows = [(t0, [Some 10, Some 20]), (t1, [Some 10, Some 20])]\<rparr>"

text \<open>Twenty-four hourly rows of one zone, the first of which has no price.\<close>

definition df_hole :: dataframe where
  "df_hole =
     \<lparr>zone_cols = [''A''],
      rows = map (\<lambda>h. (\<lparr>year = 2021, month = 1, day = 1, hour = int h\<rparr>,
                        [if h = 0 then None else Some 10]))
               [0..<24]\<rparr>"

definition df_day :: dataframe where
  "df_day =
     \<lparr>zone_cols = [''A''],
      rows = map (\<lambda>h. (\<lparr>year = 2021, month = 1, day = 1, hour = int h\<rparr>, [Some 10]))
               [0..<24]\<rparr>"

text \<open>A long form with records in January and in July only.\<close>

definition long_two_seasons :: "long_record list" where
  "long_two_seasons =
     [\<lparr>Date = \<lparr>year = 2021, month = 1, day = 1, hour = 0\<rparr>, Zone = ''A'', Price = 10\<rparr>,
      \<lparr>Date = \<lparr>year = 2021, month = 7, day = 1, hour = 0\<rparr>, Zone = ''A'', Price = 30\<rparr>,
      \<lparr>Date = \<lparr>year = 2021, month = 1, day = 2, hour = 0\<rparr>, Zone = ''A'', Price = 14\<rparr>]"



text \<open>One row, two zones of equal price, the columns in the order B, A.\<close>

definition df_tie :: dataframe where
  "df_tie = \<lparr>zone_cols = [''B'', ''A''], rows = [(t0, [Some 10, Some 10])]\<rparr>"

text \<open>A sheet without the column Date.\<close>

definition sheet_no_date :: sheet where
  "sheet_no_date = \<lparr>sh_columns = [''Time'', ''A''], sh_rows = [[Stamp t0, Num 10]]\<rparr>"

text \<open>
  A sheet whose column Date is the second one, its rows out of order: the first row is
  of February at hour 0, the second of January at hour 5.
\<close>

definition t_feb :: datetime where
  "t_feb = \<lparr>year = 2021, month = 2, day = 1, hour = 0\<rparr>"

definition t_jan :: datetime where
  "t_jan = \<lparr>year = 2021, month = 1, day = 1, hour = 5\<rparr>"

definition sheet_unordered :: sheet where
  "sheet_unordered =
     \<lparr>sh_columns = [''A'', ''Date''],
      sh_rows = [[Num 12, Stamp t_feb], [Num 10, Stamp t_jan]]\<rparr>"

definition stamp_only :: "xl \<Rightarrow> datetime option" where
  "stamp_only v = (case v of Stamp t \<Rightarrow> Some t | _ \<Rightarrow> None)"

text \<open>Two rows of three zones, with missing cells; the second row holds one value.\<close>

definition df_spread :: dataframe where
  "df_spread =
     \<lparr>zone_cols = [''A'', ''B'', ''C''],
      rows = [(t0, [Some 10, None, Some 25]), (t1, [None, Some 7, None])]\<rparr>"

text \<open>
  Three rows of three zones: A and B share the first two rows, A and C the last two,
  B and C the second row only.
\<close>

definition df_pairs :: dataframe where
  "df_pairs =
     \<lparr>zone_cols = [''A'', ''B'', ''C''],
      rows = [(t0, [Some 1, Some 2, None]),
              (t1, [Some 2, Some 4, Some 1]),
              (t_feb, [Some 3, None, Some 5])]\<rparr>"

section \<open>Properties of the long form\<close>

lemma stack_row_full:
  assumes "length cs = length zs" and "list_all (\<lambda>c. c \<noteq> None) cs"
  shows "map (\<lambda>r. (Date r, Zone r)) (stack_row zs (d, cs)) = map (Pair d) zs"
  using assms
proof (induction zs arbitrary: cs)
  case Nil
  then show ?case by (simp add: stack_row_def List.map_filter_simps)
next
  case (Cons z zs)
  then obtain c cs' where cs: "cs = c # cs'" by (cases cs) auto
  with Cons.prems obtain p where p: "c = Some p" by auto
  have "map (\<lambda>r. (Date r, Zone r)) (stack_row zs (d, cs')) = map (Pair d) zs"
    using Cons.IH [of cs'] Cons.prems cs by simp
  then show ?case
    by (simp add: stack_row_def cs p List.map_filter_simps)
qed

lemma stack_row_prices:
  "map (\<lambda>r. Some (Price r)) (stack_row zs (d, cs)) =
     filter (\<lambda>c. c \<noteq> None) (take (length zs) cs)"
proof (induction zs arbitrary: cs)
  case Nil
  then show ?case by (simp add: stack_row_def List.map_filter_simps)
next
  case (Cons z zs)
  show ?case
  proof (cases cs)
    case Nil
    then show ?thesis by (simp add: stack_row_def List.map_filter_simps)
  next
    case (Cons c cs')
    have "map (\<lambda>r. Some (Price r)) (stack_row zs (d, cs')) =
            filter (\<lambda>c. c \<noteq> None) (take (length zs) cs')"
      using Cons.IH [of cs'] .
    then show ?thesis
      by (cases c) (simp_all add: stack_row_def Cons List.map_filter_simps)
  qed
qed

lemma length_stack_row:
  "length (stack_row zs (d, cs)) = length (filter (\<lambda>c. c \<noteq> None) (take (length zs) cs))"
proof -
  have "length (stack_row zs (d, cs)) = length (map (\<lambda>r. Some (Price r)) (stack_row zs (d, cs)))"
    by simp
  also have "\<dots> = length (filter (\<lambda>c. c \<noteq> None) (take (length zs) cs))"
    by (simp only: stack_row_prices)
  finally show ?thesis .
qed

lemma length_stacked_rows:
  assumes "list_all (\<lambda>r. length (snd r) = length zs) rs"
  shows "length (concat (map (stack_row zs) rs)) =
           sum_list (map (\<lambda>r. length (filter (\<lambda>c. c \<noteq> None) (snd r))) rs)"
  using assms
proof (induction rs)
  case Nil
  then show ?case by simp
next
  case (Cons r rs)
  obtain d cs where r: "r = (d, cs)" by (cases r)
  with Cons.prems have "length cs = length zs" by simp
  then have "length (stack_row zs r) = length (filter (\<lambda>c. c \<noteq> None) cs)"
    by (simp add: r length_stack_row)
  with Cons show ?case by (simp add: r)
qed

lemma length_stacked:
  "rectangular df \<Longrightarrow> length (stacked df) = present_cells df"
  by (simp add: rectangular_def stacked_def present_cells_def length_stacked_rows)

lemma present_le_all:
  assumes "list_all (\<lambda>r. length (snd r) = n) rs"
  shows "sum_list (map (\<lambda>r. length (filter (\<lambda>c. c \<noteq> None) (snd r))) rs) \<le> length rs * n"
  using assms
proof (induction rs)
  case Nil
  then show ?case by simp
next
  case (Cons r rs)
  have "length (filter (\<lambda>c. c \<noteq> None) (snd r)) \<le> length (snd r)"
    by (rule length_filter_le)
  with Cons show ?case by simp
qed

lemma present_less_all:
  assumes "list_all (\<lambda>r. length (snd r) = n) rs"
    and "\<not> list_all (\<lambda>r. list_all (\<lambda>c. c \<noteq> None) (snd r)) rs"
  shows "sum_list (map (\<lambda>r. length (filter (\<lambda>c. c \<noteq> None) (snd r))) rs) < length rs * n"
  using assms
proof (induction rs)
  case Nil
  then show ?case by simp
next
  case (Cons r rs)
  have rest: "sum_list (map (\<lambda>r. length (filter (\<lambda>c. c \<noteq> None) (snd r))) rs) \<le> length rs * n"
  proof (rule present_le_all)
    show "list_all (\<lambda>r. length (snd r) = n) rs" using Cons.prems(1) by simp
  qed
  show ?case
  proof (cases "list_all (\<lambda>c. c \<noteq> None) (snd r)")
    case True
    with Cons.prems have "\<not> list_all (\<lambda>r. list_all (\<lambda>c. c \<noteq> None) (snd r)) rs" by simp
    with Cons have "sum_list (map (\<lambda>r. length (filter (\<lambda>c. c \<noteq> None) (snd r))) rs) < length rs * n"
      by simp
    moreover have "length (filter (\<lambda>c. c \<noteq> None) (snd r)) \<le> n"
      using Cons.prems(1) length_filter_le [of "\<lambda>c. c \<noteq> None" "snd r"] by simp
    ultimately show ?thesis by simp
  next
    case False
    then have "length (filter (\<lambda>c. c \<noteq> None) (snd r)) < length (snd r)"
      by (simp add: length_filter_less list_all_iff)
    with Cons.prems(1) rest show ?thesis by simp
  qed
qed

lemma stacked_pairs_rows:
  assumes "list_all (\<lambda>r. length (snd r) = length zs) rs"
    and "list_all (\<lambda>r. list_all (\<lambda>c. c \<noteq> None) (snd r)) rs"
  shows "map (\<lambda>r. (Date r, Zone r)) (concat (map (stack_row zs) rs)) =
           List.product (map fst rs) zs"
  using assms
proof (induction rs)
  case Nil
  then show ?case by simp
next
  case (Cons r rs)
  obtain d cs where r: "r = (d, cs)" by (cases r)
  with Cons.prems have "length cs = length zs" "list_all (\<lambda>c. c \<noteq> None) cs" by simp_all
  then have "map (\<lambda>r. (Date r, Zone r)) (stack_row zs r) = map (Pair d) zs"
    unfolding r by (rule stack_row_full)
  with Cons show ?case by (simp add: r)
qed

section \<open>Inter-zonal spread: properties\<close>

lemma present_Cons_None [simp]: "present (None # cs) = present cs"
  by (simp add: present_def List.map_filter_simps)

lemma present_Cons_Some [simp]: "present (Some v # cs) = v # present cs"
  by (simp add: present_def List.map_filter_simps)

lemma present_Nil [simp]: "present [] = []"
  by (simp add: present_def List.map_filter_simps)

lemma set_present: "set (present cs) = {v. Some v \<in> set cs}"
proof (induction cs)
  case Nil
  then show ?case by simp
next
  case (Cons c cs)
  then show ?case by (cases c) auto
qed

lemma present_filter: "present (filter (\<lambda>c. c \<noteq> None) cs) = present cs"
proof (induction cs)
  case Nil
  then show ?case by simp
next
  case (Cons c cs)
  then show ?case by (cases c) simp_all
qed

section \<open>The long form and the views grouped from it\<close>

lemma stack_row_cells:
  "map (\<lambda>r. (Date r, Zone r, Some (Price r))) (stack_row zs (d, cs)) =
     filter (\<lambda>(d, z, c). c \<noteq> None) (map (\<lambda>(z, c). (d, z, c)) (zip zs cs))"
proof -
  have "map (\<lambda>r. (Date r, Zone r, Some (Price r)))
          (List.map_filter (\<lambda>(z, c). map_option (\<lambda>p. \<lparr>Date = d, Zone = z, Price = p\<rparr>) c) zc) =
        filter (\<lambda>(d, z, c). c \<noteq> None) (map (\<lambda>(z, c). (d, z, c)) zc)" for zc
  proof (induction zc)
    case Nil
    then show ?case by (simp add: List.map_filter_simps)
  next
    case (Cons a zc)
    obtain z c where a: "a = (z, c)" by (cases a)
    from Cons show ?case by (cases c) (simp_all add: a List.map_filter_simps)
  qed
  then show ?thesis by (simp add: stack_row_def)
qed

lemma stacked_cells:
  "map (\<lambda>r. (Date r, Zone r, Some (Price r))) (stacked df) =
     filter (\<lambda>(d, z, c). c \<noteq> None) (cells_of df)"
proof -
  have "map (\<lambda>r. (Date r, Zone r, Some (Price r))) (concat (map (stack_row zs) rs)) =
        filter (\<lambda>(d, z, c). c \<noteq> None)
          (concat (map (\<lambda>r. map (\<lambda>(z, c). (fst r, z, c)) (zip zs (snd r))) rs))" for zs rs
  proof (induction rs)
    case Nil
    then show ?case by simp
  next
    case (Cons r rs)
    obtain d cs where r: "r = (d, cs)" by (cases r)
    from Cons show ?case by (simp add: r stack_row_cells)
  qed
  then show ?thesis by (simp add: stacked_def cells_of_def)
qed

lemma stacked_group_cells:
  "map (\<lambda>r. Some (Price r)) (filter (\<lambda>r. f (Date r) (Zone r) = k) (stacked df)) =
     map (\<lambda>(d, z, c). c) (filter (\<lambda>(d, z, c). c \<noteq> None \<and> f d z = k) (cells_of df))"
proof -
  let ?g = "\<lambda>r. (Date r, Zone r, Some (Price r))"
  let ?Q = "\<lambda>(d, z, c::cell). f d z = k"
  have "map (\<lambda>r. Some (Price r)) (filter (\<lambda>r. f (Date r) (Zone r) = k) (stacked df)) =
        map (\<lambda>(d, z, c). c) (filter ?Q (map ?g (stacked df)))"
    by (simp add: filter_map comp_def)
  also have "\<dots> = map (\<lambda>(d, z, c). c) (filter ?Q (filter (\<lambda>(d, z, c). c \<noteq> None) (cells_of df)))"
    by (simp only: stacked_cells)
  also have "\<dots> = map (\<lambda>(d, z, c). c) (filter (\<lambda>(d, z, c). c \<noteq> None \<and> f d z = k) (cells_of df))"
    by (simp add: case_prod_unfold conj_commute)
  finally show ?thesis .
qed

lemma map_Some_present: "map Some (present cs) = filter (\<lambda>c. c \<noteq> None) cs"
proof (induction cs)
  case Nil
  then show ?case by simp
next
  case (Cons c cs)
  then show ?case by (cases c) simp_all
qed

lemma stacked_zone_column:
  "map Price (filter (\<lambda>r. Zone r = z) (stacked df)) = present (column df z)"
proof -
  have "map Some (map Price (filter (\<lambda>r. Zone r = z) (stacked df))) =
        map (\<lambda>(d, z, c). c) (filter (\<lambda>(d, z', c). c \<noteq> None \<and> z' = z) (cells_of df))"
    using stacked_group_cells [of "\<lambda>d z. z" z df] by (simp add: comp_def)
  also have "\<dots> = filter (\<lambda>c. c \<noteq> None) (column df z)"
    by (simp add: column_def filter_map comp_def case_prod_unfold conj_commute)
  also have "\<dots> = map Some (present (column df z))"
    by (simp only: map_Some_present)
  finally have e: "map Some (map Price (filter (\<lambda>r. Zone r = z) (stacked df))) =
      map Some (present (column df z))" .
  show ?thesis by (rule map_injective [OF e]) simp
qed

lemma length_stacked_less:
  assumes r: "rectangular df" and n: "\<not> no_missing df"
  shows "length (stacked df) < length (rows df) * length (zone_cols df)"
proof -
  have "present_cells df < length (rows df) * length (zone_cols df)"
    using r n unfolding rectangular_def no_missing_def present_cells_def
    by (rule present_less_all)
  then show ?thesis by (simp only: length_stacked [OF r])
qed

lemma zone_agg_columns:
  "zone_agg (stacked df) =
     map (\<lambda>z. zone_stats z (present (column df z))) (sort (remdups (map Zone (stacked df))))"
  by (simp add: zone_agg_def groupby_def comp_def stacked_zone_column)

lemma stacked_full_cells:
  assumes "no_missing df"
  shows "map (\<lambda>r. (Date r, Zone r, Some (Price r))) (stacked df) = cells_of df"
proof -
  from assms have "\<forall>r \<in> set (rows df). \<forall>c \<in> set (snd r). c \<noteq> None"
    by (simp add: no_missing_def list_all_iff del: not_None_eq)
  then have "\<forall>x \<in> set (cells_of df). case x of (d, z, c) \<Rightarrow> c \<noteq> None"
    by (auto simp: cells_of_def dest!: set_zip_rightD simp del: not_None_eq)
  then have "filter (\<lambda>(d, z, c). c \<noteq> None) (cells_of df) = cells_of df"
    by (simp add: filter_id_conv del: not_None_eq)
  then show ?thesis by (simp only: stacked_cells)
qed

lemma concat_nth_same_length:
  assumes "\<forall>xs \<in> set xss. length xs = n" and "i < length xss" and "j < n"
  shows "concat xss ! (i * n + j) = xss ! i ! j"
  using assms
proof (induction xss arbitrary: i)
  case Nil
  then show ?case by simp
next
  case (Cons xs xss)
  then have len: "length xs = n" by simp
  show ?case
  proof (cases i)
    case 0
    with Cons.prems len show ?thesis by (simp add: nth_append)
  next
    case (Suc k)
    have "concat (xs # xss) ! (Suc k * n + j) = (xs @ concat xss) ! (n + (k * n + j))"
      by (simp add: add.assoc)
    also have "\<dots> = concat xss ! (k * n + j)"
      using len by (simp add: nth_append)
    also have "\<dots> = xss ! k ! j"
      using Cons.prems Suc by (intro Cons.IH) simp_all
    finally show ?thesis by (simp add: Suc)
  qed
qed

lemma length_concat_same_length:
  "\<forall>xs \<in> set xss. length xs = n \<Longrightarrow> length (concat xss) = length xss * n"
  by (induction xss) simp_all

lemma cells_of_layout:
  assumes "rectangular df"
  shows "length (cells_of df) = length (rows df) * length (zone_cols df)"
    and "i < length (rows df) \<Longrightarrow> j < length (zone_cols df) \<Longrightarrow>
         cells_of df ! (i * length (zone_cols df) + j) =
           (fst (rows df ! i), zone_cols df ! j, snd (rows df ! i) ! j)"
proof -
  let ?n = "length (zone_cols df)"
  let ?xss = "map (\<lambda>r. map (\<lambda>(z, c). (fst r, z, c)) (zip (zone_cols df) (snd r))) (rows df)"
  have rect: "\<forall>r \<in> set (rows df). length (snd r) = ?n"
    using assms by (simp add: rectangular_def list_all_iff)
  then have all: "\<forall>xs \<in> set ?xss. length xs = ?n" by auto
  show "length (cells_of df) = length (rows df) * ?n"
    using length_concat_same_length [OF all] by (simp add: cells_of_def)
  assume i: "i < length (rows df)" and j: "j < ?n"
  then have "length (snd (rows df ! i)) = ?n" using rect by simp
  with i j have "?xss ! i ! j = (fst (rows df ! i), zone_cols df ! j, snd (rows df ! i) ! j)"
    by simp
  moreover have "concat ?xss ! (i * ?n + j) = ?xss ! i ! j"
    using all i j by (intro concat_nth_same_length) simp_all
  ultimately show "cells_of df ! (i * ?n + j) =
           (fst (rows df ! i), zone_cols df ! j, snd (rows df ! i) ! j)"
    by (simp add: cells_of_def)
qed

text \<open>
  C2, as amended. The cells of a rectangular frame of R rows and Z zones are R \<open>\<times>\<close> Z,
  laid out row by row and, within a row, column by column. The long form has one
  record per cell that holds a value and no other: its records are, in the order of
  the frame, the non-missing cells, each with its timestamp, its zone and its price
  unchanged. When no cell is missing the long form has exactly R \<open>\<times>\<close> Z records, one
  per cell, so that the (Date, Zone) pairs are the pairs of each row's timestamp with
  each zone column, and no pair occurs twice when the timestamps and the zone labels
  are distinct.
\<close>

theorem C2_long_form_complete:
  assumes "rectangular df"
  shows "length (cells_of df) = length (rows df) * length (zone_cols df) \<and>
         (\<forall>i j. i < length (rows df) \<and> j < length (zone_cols df) \<longrightarrow>
            cells_of df ! (i * length (zone_cols df) + j) =
              (fst (rows df ! i), zone_cols df ! j, snd (rows df ! i) ! j)) \<and>
         map (\<lambda>r. (Date r, Zone r, Some (Price r))) (stacked df) =
           filter (\<lambda>(d, z, c). c \<noteq> None) (cells_of df) \<and>
         length (stacked df) = present_cells df \<and>
         (no_missing df \<longrightarrow>
            length (stacked df) = length (rows df) * length (zone_cols df) \<and>
            map (\<lambda>r. (Date r, Zone r, Some (Price r))) (stacked df) = cells_of df \<and>
            map (\<lambda>r. (Date r, Zone r)) (stacked df) =
              List.product (map fst (rows df)) (zone_cols df) \<and>
            (distinct (map fst (rows df)) \<and> distinct (zone_cols df) \<longrightarrow>
               distinct (map (\<lambda>r. (Date r, Zone r)) (stacked df))))"
proof (intro conjI impI allI)
  show "length (cells_of df) = length (rows df) * length (zone_cols df)"
    by (rule cells_of_layout(1) [OF assms])
  show "map (\<lambda>r. (Date r, Zone r, Some (Price r))) (stacked df) =
           filter (\<lambda>(d, z, c). c \<noteq> None) (cells_of df)"
    by (rule stacked_cells)
  show "length (stacked df) = present_cells df" by (rule length_stacked [OF assms])
next
  fix i j assume "i < length (rows df) \<and> j < length (zone_cols df)"
  then show "cells_of df ! (i * length (zone_cols df) + j) =
              (fst (rows df ! i), zone_cols df ! j, snd (rows df ! i) ! j)"
    using cells_of_layout(2) [OF assms] by blast
next
  assume n: "no_missing df"
  show pairs: "map (\<lambda>r. (Date r, Zone r)) (stacked df) =
           List.product (map fst (rows df)) (zone_cols df)"
    using assms n by (simp add: rectangular_def no_missing_def stacked_def stacked_pairs_rows)
  have "length (stacked df) = length (map (\<lambda>r. (Date r, Zone r)) (stacked df))" by simp
  also have "\<dots> = length (rows df) * length (zone_cols df)"
    by (simp only: pairs length_product length_map)
  finally show "length (stacked df) = length (rows df) * length (zone_cols df)" .
  show "map (\<lambda>r. (Date r, Zone r, Some (Price r))) (stacked df) = cells_of df"
    using n by (rule stacked_full_cells)
  assume "distinct (map fst (rows df)) \<and> distinct (zone_cols df)"
  then show "distinct (map (\<lambda>r. (Date r, Zone r)) (stacked df))"
    by (simp only: pairs distinct_product)
qed

text \<open>
  The theorem at a full frame of two rows and two zones, and at a frame of one row
  whose second cell is missing: there the long form is the single record of the first
  cell.
\<close>

theorem C2_long_form_complete_witness:
  "rectangular df_full \<and> no_missing df_full \<and>
   distinct (map fst (rows df_full)) \<and> distinct (zone_cols df_full) \<and>
   length (stacked df_full) = 4 \<and>
   map (\<lambda>r. (Date r, Zone r)) (stacked df_full) =
     [(t0, ''A''), (t0, ''B''), (t1, ''A''), (t1, ''B'')] \<and>
   distinct (map (\<lambda>r. (Date r, Zone r)) (stacked df_full)) \<and>
   rectangular df_gap \<and>
   cells_of df_gap = [(t0, ''A'', Some 10), (t0, ''B'', None)] \<and>
   map (\<lambda>r. (Date r, Zone r, Some (Price r))) (stacked df_gap) = [(t0, ''A'', Some 10)]"
proof -
  have r: "rectangular df_full" by (simp add: rectangular_def df_full_def)
  have n: "no_missing df_full" by (simp add: no_missing_def df_full_def)
  have d: "distinct (map fst (rows df_full)) \<and> distinct (zone_cols df_full)"
    by (simp add: df_full_def t0_def t1_def)
  note w = C2_long_form_complete [OF r]
  from w n have "length (stacked df_full) = length (rows df_full) * length (zone_cols df_full)"
    by blast
  then have 1: "length (stacked df_full) = 4" by (simp add: df_full_def)
  from w n have "map (\<lambda>r. (Date r, Zone r)) (stacked df_full) =
      List.product (map fst (rows df_full)) (zone_cols df_full)" by blast
  then have 2: "map (\<lambda>r. (Date r, Zone r)) (stacked df_full) =
     [(t0, ''A''), (t0, ''B''), (t1, ''A''), (t1, ''B'')]" by (simp add: df_full_def)
  from w n d have 3: "distinct (map (\<lambda>r. (Date r, Zone r)) (stacked df_full))" by blast
  have g: "rectangular df_gap" by (simp add: rectangular_def df_gap_def)
  have c: "cells_of df_gap = [(t0, ''A'', Some 10), (t0, ''B'', None)]"
    by (simp add: cells_of_def df_gap_def)
  from C2_long_form_complete [OF g]
  have "map (\<lambda>r. (Date r, Zone r, Some (Price r))) (stacked df_gap) =
           filter (\<lambda>(d, z, c). c \<noteq> None) (cells_of df_gap)" by blast
  then have 4: "map (\<lambda>r. (Date r, Zone r, Some (Price r))) (stacked df_gap) =
      [(t0, ''A'', Some 10)]" by (simp add: c)
  from r n d 1 2 3 g c 4 show ?thesis by blast
qed

text \<open>
  C2 as the specification states it fails: a frame of one row and two zones whose
  second cell is missing has one record in its long form, not two.
\<close>

theorem C2_counterexample:
  "rectangular df_gap \<and>
   length (stacked df_gap) = 1 \<and>
   length (rows df_gap) * length (zone_cols df_gap) = 2"
  by (simp add: rectangular_def df_gap_def stacked_def stack_row_def List.map_filter_simps t0_def)

section \<open>Correlation: properties\<close>

lemma complete_pairs_swap:
  "complete_pairs ys xs = map (\<lambda>(x, y). (y, x)) (complete_pairs xs ys)"
proof (induction xs ys rule: list_induct2')
  case (4 x xs y ys)
  then show ?case
    by (cases x; cases y) (simp_all add: complete_pairs_def List.map_filter_simps)
qed (simp_all add: complete_pairs_def List.map_filter_simps)

lemma pearson_swap: "pearson (map (\<lambda>(x, y). (y, x)) ps) = pearson ps"
proof -
  have f: "map fst (map (\<lambda>(x, y). (y, x)) ps) = map snd ps"
    and s: "map snd (map (\<lambda>(x, y). (y, x)) ps) = map fst ps"
    by (simp_all add: comp_def case_prod_unfold)
  have m: "map (\<lambda>(x, y). g x y) (map (\<lambda>(x, y). (y, x)) ps) = map (\<lambda>(x, y). g y x) ps"
    for g :: "real \<Rightarrow> real \<Rightarrow> real"
    by (simp add: comp_def case_prod_unfold)
  show ?thesis
    unfolding pearson_def Let_def f s m length_map
    by (simp only: mult.commute)
qed

lemma pearson_sym:
  "pearson (complete_pairs ys xs) = pearson (complete_pairs xs ys)"
  by (simp only: complete_pairs_swap [of ys xs] pearson_swap)

lemma complete_pairs_both:
  "map (\<lambda>(x, y). (Some x, Some y)) (complete_pairs xs ys) =
     filter (\<lambda>(a, b). a \<noteq> None \<and> b \<noteq> None) (zip xs ys)"
proof (induction xs ys rule: list_induct2')
  case (4 x xs y ys)
  then show ?case
    by (cases x; cases y) (simp_all add: complete_pairs_def List.map_filter_simps)
qed (simp_all add: complete_pairs_def List.map_filter_simps)

lemma complete_pairs_self: "complete_pairs xs xs = map (\<lambda>x. (x, x)) (present xs)"
proof (induction xs)
  case Nil
  then show ?case by (simp add: complete_pairs_def List.map_filter_simps)
next
  case (Cons c cs)
  then show ?case by (cases c) (simp_all add: complete_pairs_def List.map_filter_simps)
qed

lemma ssqdm_nonneg: "0 \<le> ssqdm xs"
  by (auto simp: ssqdm_def Let_def intro!: sum_list_nonneg)

lemma ssqdm_short: "length xs < 2 \<Longrightarrow> ssqdm xs = 0"
proof -
  assume "length xs < 2"
  then consider "xs = []" | x where "xs = [x]"
    by (cases xs; cases "tl xs") auto
  then show ?thesis by cases (simp_all add: ssqdm_def)
qed

lemma pearson_self:
  "pearson (map (\<lambda>x. (x, x)) ps) = (if ssqdm ps \<noteq> 0 then Float 1 else NaN)"
proof (cases "ps = []")
  case True
  then show ?thesis by (simp add: pearson_def ssqdm_def)
next
  case False
  then have n: "\<not> length ps < 1" by (cases ps) simp_all
  have a: "map fst (map (\<lambda>x. (x, x)) ps) = ps" "map snd (map (\<lambda>x. (x, x)) ps) = ps"
    by (simp_all add: comp_def)
  have b: "map (\<lambda>(x, y). g x y) (map (\<lambda>x. (x, x)) ps) = map (\<lambda>x. g x x) ps"
    for g :: "real \<Rightarrow> real \<Rightarrow> real"
    by (simp add: comp_def)
  have sq: "sqrt (ssqdm ps * ssqdm ps) = ssqdm ps"
    using ssqdm_nonneg [of ps] by simp
  have "pearson (map (\<lambda>x. (x, x)) ps) =
          (if sqrt (ssqdm ps * ssqdm ps) \<noteq> 0
           then Float (ssqdm ps / sqrt (ssqdm ps * ssqdm ps)) else NaN)"
    unfolding pearson_def Let_def a b length_map using n
    by (simp add: ssqdm_def Let_def power2_eq_square)
  then show ?thesis using ssqdm_nonneg [of ps] by simp
qed

lemma var_nonzero_iff:
  "(case var_of ps of None \<Rightarrow> False | Some v \<Rightarrow> v \<noteq> 0) \<longleftrightarrow> ssqdm ps \<noteq> 0"
proof (cases "length ps < 2")
  case True
  then show ?thesis by (simp add: var_of_def ssqdm_short)
next
  case False
  then show ?thesis by (simp add: var_of_def)
qed

lemma corr_entry:
  assumes "i < length (zone_cols df)" and "j < length (zone_cols df)"
  shows "corr df ! i ! j =
           pearson (complete_pairs (column df (zone_cols df ! i)) (column df (zone_cols df ! j)))"
  using assms by (simp add: corr_def nth_enumerate_eq pearson_sym)

lemma float_eq_refl: "float_eq x x \<longleftrightarrow> x \<noteq> NaN"
  by (cases x) simp_all

lemma filter_zip_absent:
  "z \<notin> set zs \<Longrightarrow> filter (\<lambda>(z', c). z' = z) (zip zs cs) = []"
  by (auto simp: filter_empty_conv dest: set_zip_leftD)

lemma row_pick:
  assumes "distinct zs" and "i < length zs" and "length cs = length zs"
  shows "map snd (filter (\<lambda>(z', c). z' = zs ! i) (zip zs cs)) = [cs ! i]"
  using assms
proof (induction zs arbitrary: cs i)
  case Nil
  then show ?case by simp
next
  case (Cons z zs)
  from Cons.prems(3) obtain c cs' where cs: "cs = c # cs'" and l: "length cs' = length zs"
    by (cases cs) auto
  show ?case
  proof (cases i)
    case 0
    from Cons.prems(1) have "z \<notin> set zs" by simp
    then show ?thesis using 0 cs by (simp add: filter_zip_absent)
  next
    case (Suc k)
    with Cons.prems have k: "k < length zs" and d: "distinct zs" and "z \<noteq> zs ! k"
      by auto
    with Cons.IH [OF d k l] show ?thesis using Suc cs by simp
  qed
qed

lemma column_nth:
  assumes "rectangular df" and "distinct (zone_cols df)" and "i < length (zone_cols df)"
  shows "column df (zone_cols df ! i) = map (\<lambda>r. snd r ! i) (rows df)"
proof -
  have each: "map (\<lambda>(d, z', c). c)
          (filter (\<lambda>(d, z', c). z' = zone_cols df ! i)
             (map (\<lambda>(z, c). (fst r, z, c)) (zip (zone_cols df) (snd r)))) = [snd r ! i]"
    if "r \<in> set (rows df)" for r
  proof -
    from that assms(1) have l: "length (snd r) = length (zone_cols df)"
      by (simp add: rectangular_def list_all_iff)
    have "map (\<lambda>(d, z', c). c)
          (filter (\<lambda>(d, z', c). z' = zone_cols df ! i)
             (map (\<lambda>(z, c). (fst r, z, c)) (zip (zone_cols df) (snd r)))) =
          map snd (filter (\<lambda>(z', c). z' = zone_cols df ! i) (zip (zone_cols df) (snd r)))"
      by (simp add: filter_map comp_def case_prod_unfold)
    with row_pick [OF assms(2,3) l] show ?thesis by simp
  qed
  have "column df (zone_cols df ! i) =
      concat (map (\<lambda>r. map (\<lambda>(d, z', c). c)
          (filter (\<lambda>(d, z', c). z' = zone_cols df ! i)
             (map (\<lambda>(z, c). (fst r, z, c)) (zip (zone_cols df) (snd r))))) (rows df))"
    by (simp add: column_def cells_of_def filter_concat map_concat comp_def)
  also have "\<dots> = concat (map (\<lambda>r. [snd r ! i]) (rows df))"
    using each by (intro arg_cong [where f = concat] map_cong) auto
  also have "\<dots> = map (\<lambda>r. snd r ! i) (rows df)"
    by (induction "rows df") (simp_all add: concat_map_singleton)
  finally show ?thesis .
qed

lemma complete_pairs_map:
  "complete_pairs (map f rs) (map g rs) =
     map (\<lambda>r. (the (f r), the (g r))) (filter (\<lambda>r. f r \<noteq> None \<and> g r \<noteq> None) rs)"
proof (induction rs)
  case Nil
  then show ?case by (simp add: complete_pairs_def List.map_filter_simps)
next
  case (Cons r rs)
  then show ?case
    by (cases "f r"; cases "g r") (simp_all add: complete_pairs_def List.map_filter_simps)
qed

lemma present_map:
  "present (map f rs) = map (\<lambda>r. the (f r)) (filter (\<lambda>r. f r \<noteq> None) rs)"
proof (induction rs)
  case Nil
  then show ?case by (simp add: present_def List.map_filter_simps)
next
  case (Cons r rs)
  then show ?case by (cases "f r") (simp_all add: present_def List.map_filter_simps)
qed

lemma pearson_formula:
  "pearson ps =
     (let n = real (length ps);
          mx = sum_list (map fst ps) / n;
          my = sum_list (map snd ps) / n;
          sxx = sum_list (map (\<lambda>p. (fst p - mx)\<^sup>2) ps);
          syy = sum_list (map (\<lambda>p. (snd p - my)\<^sup>2) ps);
          sxy = sum_list (map (\<lambda>p. (fst p - mx) * (snd p - my)) ps)
      in if sxx * syy = 0 then NaN else Float (sxy / sqrt (sxx * syy)))"
proof (cases "ps = []")
  case True
  then show ?thesis by (simp add: pearson_def)
next
  case False
  then have "\<not> length ps < 1" by (cases ps) simp_all
  then show ?thesis by (simp add: pearson_def Let_def case_prod_unfold)
qed

text \<open>
  C6. The correlation matrix has one row and one column per zone, and its entries are
  floats. The entry of zones A, B and the entry of B, A are the same float, and they
  compare equal under \<^verbatim>\<open>==\<close> exactly when they are not NaN. In a rectangular frame with
  distinct zone labels, the entry of two zones is computed from the rows in which both
  zones hold a value, and from these only: it is the sum of the products of the
  deviations from the two means over the root of the product of the two sums of
  squared deviations, and NaN when that product is 0, as it is with no such row or
  with one. The diagonal entry of a zone is 1 when the zone holds at least two values
  and their sample variance is not 0, and NaN otherwise.
\<close>

theorem C6_corr_symmetric_diagonal:
  assumes "i < length (zone_cols df)" and "j < length (zone_cols df)"
  shows "length (corr df) = length (zone_cols df) \<and>
         length (corr df ! i) = length (zone_cols df) \<and>
         corr df ! i ! j = corr df ! j ! i \<and>
         (float_eq (corr df ! i ! j) (corr df ! j ! i) \<longleftrightarrow> corr df ! i ! j \<noteq> NaN) \<and>
         (rectangular df \<and> distinct (zone_cols df) \<longrightarrow>
            (let ps = map (\<lambda>r. (the (snd r ! i), the (snd r ! j)))
                        (filter (\<lambda>r. snd r ! i \<noteq> None \<and> snd r ! j \<noteq> None) (rows df));
                 n = real (length ps);
                 mx = sum_list (map fst ps) / n;
                 my = sum_list (map snd ps) / n;
                 sxx = sum_list (map (\<lambda>p. (fst p - mx)\<^sup>2) ps);
                 syy = sum_list (map (\<lambda>p. (snd p - my)\<^sup>2) ps);
                 sxy = sum_list (map (\<lambda>p. (fst p - mx) * (snd p - my)) ps)
             in corr df ! i ! j =
                  (if sxx * syy = 0 then NaN else Float (sxy / sqrt (sxx * syy)))) \<and>
            (let xs = map (\<lambda>r. the (snd r ! i)) (filter (\<lambda>r. snd r ! i \<noteq> None) (rows df));
                 n = length xs;
                 m = sum_list xs / real n;
                 v = sum_list (map (\<lambda>x. (x - m)\<^sup>2) xs) / (real n - 1)
             in corr df ! i ! i = (if 2 \<le> n \<and> v \<noteq> 0 then Float 1 else NaN)))"
proof -
  let ?ci = "column df (zone_cols df ! i)" and ?cj = "column df (zone_cols df ! j)"
  have len: "length (corr df) = length (zone_cols df)"
    by (simp add: corr_def)
  have leni: "length (corr df ! i) = length (zone_cols df)"
    using assms(1) by (simp add: corr_def nth_enumerate_eq)
  have ij: "corr df ! i ! j = pearson (complete_pairs ?ci ?cj)"
    using assms by (rule corr_entry)
  have ji: "corr df ! j ! i = pearson (complete_pairs ?cj ?ci)"
    using assms(2) assms(1) by (rule corr_entry)
  have sym: "corr df ! i ! j = corr df ! j ! i"
    by (simp only: ij ji pearson_sym)
  have eq: "float_eq (corr df ! i ! j) (corr df ! j ! i) \<longleftrightarrow> corr df ! i ! j \<noteq> NaN"
    using sym float_eq_refl [of "corr df ! i ! j"] by simp
  have ii: "corr df ! i ! i = (if ssqdm (present ?ci) \<noteq> 0 then Float 1 else NaN)"
    using corr_entry [OF assms(1) assms(1)] by (simp only: complete_pairs_self pearson_self)
  have expl: "(let ps = map (\<lambda>r. (the (snd r ! i), the (snd r ! j)))
                        (filter (\<lambda>r. snd r ! i \<noteq> None \<and> snd r ! j \<noteq> None) (rows df));
                 n = real (length ps);
                 mx = sum_list (map fst ps) / n;
                 my = sum_list (map snd ps) / n;
                 sxx = sum_list (map (\<lambda>p. (fst p - mx)\<^sup>2) ps);
                 syy = sum_list (map (\<lambda>p. (snd p - my)\<^sup>2) ps);
                 sxy = sum_list (map (\<lambda>p. (fst p - mx) * (snd p - my)) ps)
             in corr df ! i ! j =
                  (if sxx * syy = 0 then NaN else Float (sxy / sqrt (sxx * syy)))) \<and>
            (let xs = map (\<lambda>r. the (snd r ! i)) (filter (\<lambda>r. snd r ! i \<noteq> None) (rows df));
                 n = length xs;
                 m = sum_list xs / real n;
                 v = sum_list (map (\<lambda>x. (x - m)\<^sup>2) xs) / (real n - 1)
             in corr df ! i ! i = (if 2 \<le> n \<and> v \<noteq> 0 then Float 1 else NaN))"
    if r: "rectangular df" and d: "distinct (zone_cols df)"
  proof -
    have ci: "?ci = map (\<lambda>r. snd r ! i) (rows df)"
      using r d assms(1) by (rule column_nth)
    have cj: "?cj = map (\<lambda>r. snd r ! j) (rows df)"
      using r d assms(2) by (rule column_nth)
    have cp: "complete_pairs ?ci ?cj =
        map (\<lambda>r. (the (snd r ! i), the (snd r ! j)))
          (filter (\<lambda>r. snd r ! i \<noteq> None \<and> snd r ! j \<noteq> None) (rows df))"
      unfolding ci cj by (rule complete_pairs_map)
    have pr: "present ?ci =
        map (\<lambda>r. the (snd r ! i)) (filter (\<lambda>r. snd r ! i \<noteq> None) (rows df))"
      unfolding ci by (rule present_map)
    have 1: "let ps = map (\<lambda>r. (the (snd r ! i), the (snd r ! j)))
                        (filter (\<lambda>r. snd r ! i \<noteq> None \<and> snd r ! j \<noteq> None) (rows df));
                 n = real (length ps);
                 mx = sum_list (map fst ps) / n;
                 my = sum_list (map snd ps) / n;
                 sxx = sum_list (map (\<lambda>p. (fst p - mx)\<^sup>2) ps);
                 syy = sum_list (map (\<lambda>p. (snd p - my)\<^sup>2) ps);
                 sxy = sum_list (map (\<lambda>p. (fst p - mx) * (snd p - my)) ps)
             in corr df ! i ! j =
                  (if sxx * syy = 0 then NaN else Float (sxy / sqrt (sxx * syy)))"
      unfolding ij cp Let_def by (rule pearson_formula [unfolded Let_def])
    have 2: "let xs = map (\<lambda>r. the (snd r ! i)) (filter (\<lambda>r. snd r ! i \<noteq> None) (rows df));
                 n = length xs;
                 m = sum_list xs / real n;
                 v = sum_list (map (\<lambda>x. (x - m)\<^sup>2) xs) / (real n - 1)
             in corr df ! i ! i = (if 2 \<le> n \<and> v \<noteq> 0 then Float 1 else NaN)"
    proof (cases "length (present ?ci) < 2")
      case True
      with ssqdm_short [OF True] show ?thesis
        unfolding ii pr [symmetric] Let_def by simp
    next
      case False
      then have "real (length (present ?ci)) - 1 \<noteq> 0" by simp
      with False show ?thesis
        unfolding ii pr [symmetric] Let_def by (simp add: ssqdm_def Let_def)
    qed
    from 1 2 show ?thesis by (rule conjI)
  qed
  from len leni sym eq expl show ?thesis by blast
qed

theorem C6_corr_symmetric_diagonal_witness:
  "rectangular df_pairs \<and> distinct (zone_cols df_pairs) \<and>
   corr df_pairs ! 0 ! 1 = Float 1 \<and> corr df_pairs ! 1 ! 0 = Float 1 \<and>
   float_eq (corr df_pairs ! 0 ! 1) (corr df_pairs ! 1 ! 0) \<and>
   corr df_pairs ! 1 ! 2 = NaN \<and> corr df_pairs ! 2 ! 1 = NaN \<and>
   \<not> float_eq (corr df_pairs ! 1 ! 2) (corr df_pairs ! 2 ! 1) \<and>
   corr df_pairs ! 1 ! 1 = Float 1 \<and>
   corr df_full ! 0 ! 1 = Float (- 1) \<and>
   corr df_const ! 0 ! 0 = NaN"
proof -
  define P where "P = corr df_pairs"
  define F where "F = corr df_full"
  define C where "C = corr df_const"
  have r: "rectangular df_pairs" and d: "distinct (zone_cols df_pairs)"
    by (simp_all add: rectangular_def df_pairs_def)
  have rf: "rectangular df_full" and "distinct (zone_cols df_full)"
    and rc: "rectangular df_const" and "distinct (zone_cols df_const)"
    by (simp_all add: rectangular_def df_full_def df_const_def)
  note rd = r d rf rc this(2,4)
  have v: "zone_cols df_pairs = [''A'', ''B'', ''C'']"
    "rows df_pairs = [(t0, [Some 1, Some 2, None]), (t1, [Some 2, Some 4, Some 1]),
                      (t_feb, [Some 3, None, Some 5])]"
    "zone_cols df_full = [''A'', ''B'']"
    "rows df_full = [(t0, [Some 10, Some 20]), (t1, [Some 12, Some 18])]"
    "zone_cols df_const = [''A'', ''B'']"
    "rows df_const = [(t0, [Some 10, Some 20]), (t1, [Some 10, Some 20])]"
    by (simp_all add: df_pairs_def df_full_def df_const_def)
  note p01 = C6_corr_symmetric_diagonal [of 0 df_pairs 1, folded P_def]
  note p12 = C6_corr_symmetric_diagonal [of 1 df_pairs 2, folded P_def]
  note p11 = C6_corr_symmetric_diagonal [of 1 df_pairs 1, folded P_def]
  note f01 = C6_corr_symmetric_diagonal [of 0 df_full 1, folded F_def]
  note c00 = C6_corr_symmetric_diagonal [of 0 df_const 0, folded C_def]
  have e01: "P ! 0 ! 1 = Float 1"
    using p01 rd by (auto simp add: v Let_def power2_eq_square)
  have e10: "P ! 1 ! 0 = Float 1"
    using p01 e01 by (auto simp add: v)
  have e12: "P ! 1 ! 2 = NaN"
    using p12 rd by (auto simp add: v Let_def)
  have e21: "P ! 2 ! 1 = NaN"
    using p12 e12 by (auto simp add: v)
  have e11: "P ! 1 ! 1 = Float 1"
    using p11 rd by (auto simp add: v Let_def power2_eq_square)
  have g01: "F ! 0 ! 1 = Float (- 1)"
    using f01 rd by (auto simp add: v Let_def power2_eq_square)
  have h00: "C ! 0 ! 0 = NaN"
    using c00 rd by (auto simp add: v Let_def)
  from r d e01 e10 e12 e21 e11 g01 h00 show ?thesis
    unfolding P_def F_def C_def by simp
qed

text \<open>
  C6 as the specification states it fails on two rows in which zone A is 10 and zone B
  is 20: the variance of A is 0 and the diagonal entry of A is the float NaN, and the
  entries of A against B and of B against A do not compare equal.
\<close>

theorem C6_counterexample:
  "var_of (present (column df_const ''A'')) = Some 0 \<and>
   corr df_const ! 0 ! 0 = NaN \<and>
   corr df_const ! 0 ! 1 = NaN \<and>
   corr df_const ! 1 ! 0 = NaN \<and>
   \<not> float_eq (corr df_const ! 0 ! 1) (corr df_const ! 1 ! 0)"
  by (simp add: corr_def pearson_def complete_pairs_def List.map_filter_simps Let_def
      column_def cells_of_def df_const_def var_of_def ssqdm_def present_def enumerate_eq_zip)

section \<open>Rolling statistics: properties\<close>

lemma length_window_le: "length (window w xs i) \<le> Suc i"
  by (simp add: window_def)

lemma length_present_le: "length (present cs) \<le> length cs"
proof (induction cs)
  case Nil
  then show ?case by simp
next
  case (Cons c cs)
  then show ?case by (cases c) simp_all
qed

lemma present_all:
  "list_all (\<lambda>c. c \<noteq> None) cs \<Longrightarrow> length (present cs) = length cs"
proof (induction cs)
  case Nil
  then show ?case by simp
next
  case (Cons c cs)
  then show ?case by (cases c) simp_all
qed

lemma window_all:
  "list_all P xs \<Longrightarrow> list_all P (window w xs i)"
  unfolding window_def list_all_iff
  by (meson in_set_dropD in_set_takeD)

lemma length_window:
  "i < length xs \<Longrightarrow> length (window w xs i) = min (Suc i) w"
  by (auto simp: window_def)

lemma rolling_nth:
  "i < length xs \<Longrightarrow>
     rolling w mp f xs ! i =
       (if length (present (window w xs i)) < mp then None else f (present (window w xs i)))"
  by (simp add: rolling_def Let_def)

lemma mean_None_iff: "mean xs = None \<longleftrightarrow> xs = []"
  by (simp add: mean_def)

lemma std_None_iff: "std xs = None \<longleftrightarrow> length xs < 2"
  by (simp add: std_def var_of_def)

text \<open>
  C4, as amended. The across-zone mean of a row is taken over the values present in
  the row. At every position the rolling mean and the rolling volatility have a value
  exactly when the trailing window of at most 720 positions holds at least 24
  across-zone means; the value is then the mean, or the sample standard deviation, of
  those. So the positions 0 to 22 never have a value, and when every row of the frame
  holds at least one price, every position from 23 on has both values.
\<close>

theorem C4_rolling_min_periods:
  assumes "i < length (rows df)"
  shows "Avg (roll df) ! i = mean (present (snd (rows df ! i))) \<and>
         RollMean30d (roll df) ! i =
           (if length (present (window 720 (Avg (roll df)) i)) < 24 then None
            else mean (present (window 720 (Avg (roll df)) i))) \<and>
         RollVol30d (roll df) ! i =
           (if length (present (window 720 (Avg (roll df)) i)) < 24 then None
            else std (present (window 720 (Avg (roll df)) i))) \<and>
         (RollMean30d (roll df) ! i \<noteq> None \<longleftrightarrow>
            24 \<le> length (present (window 720 (Avg (roll df)) i))) \<and>
         (RollVol30d (roll df) ! i \<noteq> None \<longleftrightarrow>
            24 \<le> length (present (window 720 (Avg (roll df)) i))) \<and>
         (i < 23 \<longrightarrow> RollMean30d (roll df) ! i = None \<and> RollVol30d (roll df) ! i = None) \<and>
         (list_all (\<lambda>r. present (snd r) \<noteq> []) (rows df) \<and> 23 \<le> i \<longrightarrow>
            RollMean30d (roll df) ! i \<noteq> None \<and> RollVol30d (roll df) ! i \<noteq> None)"
proof -
  let ?avg = "Avg (roll df)"
  let ?obs = "present (window 720 ?avg i)"
  have avg: "?avg = map (\<lambda>r. mean (present (snd r))) (rows df)"
    by (simp add: roll_def Let_def)
  have li: "i < length ?avg" using assms by (simp add: avg)
  have a: "?avg ! i = mean (present (snd (rows df ! i)))"
    using assms by (simp add: avg)
  have m: "RollMean30d (roll df) ! i = (if length ?obs < 24 then None else mean ?obs)"
    using rolling_nth [OF li, of 720 24 mean] by (simp add: roll_def Let_def)
  have v: "RollVol30d (roll df) ! i = (if length ?obs < 24 then None else std ?obs)"
    using rolling_nth [OF li, of 720 24 std] by (simp add: roll_def Let_def)
  have md: "RollMean30d (roll df) ! i \<noteq> None \<longleftrightarrow> 24 \<le> length ?obs"
  proof (cases "length ?obs < 24")
    case True
    then show ?thesis by (simp add: m)
  next
    case False
    then have "?obs \<noteq> []" by auto
    then have "mean ?obs \<noteq> None" by (simp add: mean_None_iff)
    with False show ?thesis by (simp add: m)
  qed
  have vd: "RollVol30d (roll df) ! i \<noteq> None \<longleftrightarrow> 24 \<le> length ?obs"
  proof (cases "length ?obs < 24")
    case True
    then show ?thesis by (simp add: v)
  next
    case False
    then have "\<not> length ?obs < 2" by simp
    then have "std ?obs \<noteq> None" by (simp add: std_None_iff)
    with False show ?thesis by (simp add: v)
  qed
  have early: "i < 23 \<longrightarrow> RollMean30d (roll df) ! i = None \<and> RollVol30d (roll df) ! i = None"
  proof
    assume "i < 23"
    moreover have "length ?obs \<le> Suc i"
      using length_present_le [of "window 720 ?avg i"] length_window_le [of 720 ?avg i]
      by (rule order_trans)
    ultimately have "length ?obs < 24" by simp
    then show "RollMean30d (roll df) ! i = None \<and> RollVol30d (roll df) ! i = None"
      by (simp add: m v)
  qed
  have late: "list_all (\<lambda>r. present (snd r) \<noteq> []) (rows df) \<and> 23 \<le> i \<longrightarrow>
      RollMean30d (roll df) ! i \<noteq> None \<and> RollVol30d (roll df) ! i \<noteq> None"
  proof
    assume h: "list_all (\<lambda>r. present (snd r) \<noteq> []) (rows df) \<and> 23 \<le> i"
    then have "list_all (\<lambda>c. c \<noteq> None) ?avg"
      by (simp add: avg list_all_iff mean_None_iff del: not_None_eq)
    then have "list_all (\<lambda>c. c \<noteq> None) (window 720 ?avg i)"
      by (rule window_all)
    then have "length ?obs = length (window 720 ?avg i)"
      by (rule present_all)
    also have "\<dots> = min (Suc i) 720"
      using li by (rule length_window)
    finally have "24 \<le> length ?obs" using h by simp
    with md vd show "RollMean30d (roll df) ! i \<noteq> None \<and> RollVol30d (roll df) ! i \<noteq> None"
      by blast
  qed
  from a m v md vd early late show ?thesis by blast
qed

lemma rows_hole: "length (rows df_hole) = 24"
  by (simp add: df_hole_def)

lemma avg_hole: "Avg (roll df_hole) = None # replicate 23 (Some 10)"
  by (simp add: roll_def df_hole_def Let_def mean_def eval_nat_numeral
      upt_rec [of _ "Suc _"] del: upt_Suc)

lemma present_replicate: "present (replicate n (Some v)) = replicate n v"
  by (induction n) simp_all

theorem C4_rolling_min_periods_witness:
  "23 < length (rows df_day) \<and>
   list_all (\<lambda>r. present (snd r) \<noteq> []) (rows df_day) \<and>
   RollMean30d (roll df_day) ! 23 \<noteq> None \<and>
   RollVol30d (roll df_day) ! 23 \<noteq> None \<and>
   RollMean30d (roll df_day) ! 22 = None \<and>
   RollVol30d (roll df_day) ! 22 = None"
proof -
  have l: "23 < length (rows df_day)" and l': "22 < length (rows df_day)"
    by (simp_all add: df_day_def)
  have a: "list_all (\<lambda>r. present (snd r) \<noteq> []) (rows df_day)"
    by (simp add: df_day_def list_all_iff)
  have le: "(23::nat) \<le> 23" and less: "(22::nat) < 23" by simp_all
  from C4_rolling_min_periods [OF l] a le
  have "RollMean30d (roll df_day) ! 23 \<noteq> None \<and> RollVol30d (roll df_day) ! 23 \<noteq> None"
    by blast
  moreover from C4_rolling_min_periods [OF l'] less
  have "RollMean30d (roll df_day) ! 22 = None \<and> RollVol30d (roll df_day) ! 22 = None"
    by blast
  ultimately show ?thesis using l a by blast
qed

text \<open>
  C4 as the specification states it fails: in a frame of 24 hourly rows whose first
  row has no price, position 23 has neither a rolling mean nor a rolling volatility,
  because its window holds only 23 across-zone means.
\<close>

theorem C4_counterexample:
  "length (rows df_hole) = 24 \<and>
   RollMean30d (roll df_hole) ! 23 = None \<and>
   RollVol30d (roll df_hole) ! 23 = None"
proof -
  have l: "23 < length (Avg (roll df_hole))" by (simp add: avg_hole)
  have w: "present (window 720 (Avg (roll df_hole)) 23) = replicate 23 10"
    by (simp add: avg_hole window_def present_replicate)
  have m: "RollMean30d (roll df_hole) = rolling 720 24 mean (Avg (roll df_hole))"
    and v: "RollVol30d (roll df_hole) = rolling 720 24 std (Avg (roll df_hole))"
    by (simp_all add: roll_def Let_def)
  have "rolling 720 24 mean (Avg (roll df_hole)) ! 23 = None"
    by (simp add: rolling_nth [OF l] w)
  moreover have "rolling 720 24 std (Avg (roll df_hole)) ! 23 = None"
    by (simp add: rolling_nth [OF l] w)
  ultimately show ?thesis unfolding m v using rows_hole by blast
qed

section \<open>Seasonal statistics: properties\<close>

lemma map_result_total:
  "(\<And>x. x \<in> set xs \<Longrightarrow> f x = Inr (g x)) \<Longrightarrow> map_result f xs = Inr (map g xs)"
  by (induction xs) simp_all

lemma map_of_keys:
  "map_of (map (\<lambda>k. (k, h k)) ks) k = (if k \<in> set ks then Some (h k) else None)"
  by (induction ks) simp_all

lemma season_stats_Nil:
  "season_stats s [] =
     \<lparr>Season = s, s_mean = None, s_median = None, s_std = None, s_min = None, s_max = None\<rparr>"
  by (simp add: season_stats_def mean_def median_def std_def var_of_def min_of_def max_of_def)

lemma season_of_month_cases:
  "season_of_month m = Inr ''Winter'' \<longleftrightarrow> m \<in> {12, 1, 2}"
  "season_of_month m = Inr ''Spring'' \<longleftrightarrow> m \<in> {3, 4, 5}"
  "season_of_month m = Inr ''Summer'' \<longleftrightarrow> m \<in> {6, 7, 8}"
  "season_of_month m = Inr ''Autumn'' \<longleftrightarrow> m \<in> {9, 10, 11}"
  by (auto simp: season_of_month_def)

lemma season_of_month_valid:
  assumes "1 \<le> (m::int)" and "m \<le> 12"
  shows "m \<in> {12, 1, 2} \<or> m \<in> {3, 4, 5} \<or> m \<in> {6, 7, 8} \<or> m \<in> {9, 10, 11}"
proof -
  from assms have "m = 1 \<or> m = 2 \<or> m = 3 \<or> m = 4 \<or> m = 5 \<or> m = 6 \<or> m = 7 \<or> m = 8 \<or>
      m = 9 \<or> m = 10 \<or> m = 11 \<or> m = 12" by arith
  then show ?thesis by auto
qed

lemma season_of_month_total:
  assumes "1 \<le> m" and "m \<le> 12"
  shows "season_of_month m =
           Inr (case season_of_month m of Inr s \<Rightarrow> s | Inl e \<Rightarrow> [])"
proof -
  from season_of_month_valid [OF assms]
  have "season_of_month m = Inr ''Winter'' \<or> season_of_month m = Inr ''Spring'' \<or>
        season_of_month m = Inr ''Summer'' \<or> season_of_month m = Inr ''Autumn''"
    by (simp only: season_of_month_cases)
  then show ?thesis by auto
qed

lemma map_groupby:
  "map (\<lambda>(k, g). (k, F k g)) (groupby key xs) =
     map (\<lambda>k. (k, F k (filter (\<lambda>x. key x = k) xs))) (sort (remdups (map key xs)))"
  by (simp add: groupby_def)

lemma seasonal_rows:
  assumes v: "list_all (\<lambda>r. 1 \<le> month (Date r) \<and> month (Date r) \<le> 12) long"
  shows "seasonal long =
           Inr (map (\<lambda>s. season_stats s
                       (map Price (filter (\<lambda>r. season_of_month (month (Date r)) = Inr s) long)))
                  season_order)"
proof -
  let ?f = "\<lambda>r. season_of_month (month (Date r))"
  let ?g = "\<lambda>r. case ?f r of Inr s \<Rightarrow> s | Inl e \<Rightarrow> []"
  have tot: "?f r = Inr (?g r)" if "r \<in> set long" for r
    using v that season_of_month_total [of "month (Date r)"] by (simp add: list_all_iff)
  then have mr: "map_result ?f long = Inr (map ?g long)"
    by (rule map_result_total)
  have zp: "zip (map ?g long) long = map (\<lambda>r. (?g r, r)) long"
    by (induction long) simp_all
  have grp: "map (Price \<circ> snd) (filter (\<lambda>x. fst x = k) (map (\<lambda>r. (?g r, r)) long)) =
             map Price (filter (\<lambda>r. ?f r = Inr k) long)" for k
  proof -
    have "filter (\<lambda>r. ?g r = k) long = filter (\<lambda>r. ?f r = Inr k) long"
    proof (rule filter_cong [OF refl])
      fix r assume "r \<in> set long"
      from tot [OF this] show "(?g r = k) = (?f r = Inr k)" by (simp split: sum.splits)
    qed
    then show ?thesis by (simp add: filter_map comp_def)
  qed
  define keys where "keys = sort (remdups (map fst (map (\<lambda>r. (?g r, r)) long)))"
  let ?h = "\<lambda>k. season_stats k (map Price (filter (\<lambda>r. ?f r = Inr k) long))"
  have tbl: "map (\<lambda>(s, g). (s, season_stats s (map (Price \<circ> snd) g)))
               (groupby fst (map (\<lambda>r. (?g r, r)) long)) = map (\<lambda>k. (k, ?h k)) keys"
    by (simp only: map_groupby grp keys_def)
  have row: "(case map_of (map (\<lambda>k. (k, ?h k)) ks) s of
               None \<Rightarrow> \<lparr>Season = s, s_mean = None, s_median = None,
                        s_std = None, s_min = None, s_max = None\<rparr>
             | Some row \<Rightarrow> row) = ?h s" if ks: "set ks = ?g ` set long" for s ks
  proof (cases "s \<in> set ks")
    case True
    then show ?thesis by (simp only: map_of_keys if_True option.case)
  next
    case False
    then have "\<And>r. r \<in> set long \<Longrightarrow> ?g r \<noteq> s" using ks by auto
    then have "\<And>r. r \<in> set long \<Longrightarrow> ?f r \<noteq> Inr s" using tot by fastforce
    then have "filter (\<lambda>r. ?f r = Inr s) long = []" by (simp add: filter_empty_conv)
    with False show ?thesis
      by (simp only: map_of_keys if_False option.case list.map season_stats_Nil)
  qed
  have keys: "set keys = ?g ` set long" by (simp add: keys_def image_image)
  have "map (\<lambda>(s, v). case v of
                         None \<Rightarrow> \<lparr>Season = s, s_mean = None, s_median = None,
                                  s_std = None, s_min = None, s_max = None\<rparr>
                       | Some row \<Rightarrow> row)
          (map (\<lambda>k. (k, map_of (map (\<lambda>k. (k, ?h k)) keys) k)) season_order) =
        map ?h season_order"
    by (simp add: comp_def row [OF keys])
  then show ?thesis
    by (simp only: seasonal_def mr sum.case zp tbl reindex_def)
qed

lemma one_season:
  assumes "1 \<le> (m::int)" and "m \<le> 12"
  shows "(if m \<in> {12, 1, 2} then 1 else 0) + (if m \<in> {3, 4, 5} then 1 else 0) +
         (if m \<in> {6, 7, 8} then 1 else 0) + (if m \<in> {9, 10, 11} then 1 else 0) = (1::nat)"
  using season_of_month_valid [OF assms] by auto

lemma season_partition:
  assumes "list_all (\<lambda>r. 1 \<le> month (Date r) \<and> month (Date r) \<le> 12)
             (long :: long_record list)"
  shows "length (filter (\<lambda>r. month (Date r) \<in> {12, 1, 2}) long) +
         length (filter (\<lambda>r. month (Date r) \<in> {3, 4, 5}) long) +
         length (filter (\<lambda>r. month (Date r) \<in> {6, 7, 8}) long) +
         length (filter (\<lambda>r. month (Date r) \<in> {9, 10, 11}) long) = length long"
  using assms
proof (induction long)
  case Nil
  then show ?case by simp
next
  case (Cons r long)
  have len: "length (filter P (r # long)) = (if P r then 1 else 0) + length (filter P long)"
    for P :: "long_record \<Rightarrow> bool"
    by simp
  from Cons.prems have "1 \<le> month (Date r)" "month (Date r) \<le> 12" by simp_all
  from one_season [OF this] Cons.IH Cons.prems show ?case
    unfolding len by simp
qed

section \<open>Sorting and the extremes: properties\<close>

lemma sort_values_stable: "sort_values by asc xs (stable_sort_values by asc xs)"
proof (cases asc)
  case True
  then show ?thesis
    by (simp add: sort_values_def stable_sort_values_def sorted_wrt_map [symmetric]
        del: sorted_wrt_map)
next
  case False
  have "sorted (map by (sort_key by (rev xs)))" by simp
  then have "sorted_wrt (\<lambda>a b. by a \<le> by b) (sort_key by (rev xs))"
    by (simp add: sorted_wrt_map)
  then have "sorted_wrt (\<lambda>a b. by b \<le> by a) (rev (sort_key by (rev xs)))"
    by (simp add: sorted_wrt_rev)
  with False show ?thesis
    by (simp add: sort_values_def stable_sort_values_def)
qed







lemma extremes_iff:
  "extremes long out \<longleftrightarrow>
     (\<exists>hi lo. sort_values Price False long hi \<and> sort_values Price True long lo \<and>
              out = (take 20 hi, take 20 lo))"
  by (auto simp: extremes.simps)











section \<open>The zone summary: properties\<close>

lemma count_ge_split:
  fixes a :: "'a::linorder"
  assumes "\<forall>u \<in> set xs. a \<le> u"
  shows "length (filter (\<lambda>u. a < u) xs) + length (filter (\<lambda>u. u = a) xs) = length xs"
  using assms by (induction xs) auto

lemma filter_none_greater:
  fixes a :: "'a::linorder"
  assumes "\<forall>u \<in> set xs. u \<le> a"
  shows "filter (\<lambda>u. a < u) xs = []"
  using assms by (induction xs) auto

lemma rank_sorted_position:
  fixes vs :: "cell list"
  assumes s: "sorted_wrt (\<lambda>a b. b \<le> a) vs" and i: "i < length vs"
  shows "length (filter (\<lambda>u. vs ! i < u) vs) + length (filter (\<lambda>u. u = vs ! i) (take i vs)) = i"
proof -
  have before: "\<forall>u \<in> set (take i vs). vs ! i \<le> u"
  proof
    fix u assume "u \<in> set (take i vs)"
    then obtain j where "j < i" "u = vs ! j"
      using i by (auto simp: in_set_conv_nth)
    with s i show "vs ! i \<le> u" by (simp add: sorted_wrt_iff_nth_less)
  qed
  have after: "\<forall>u \<in> set (drop i vs). u \<le> vs ! i"
  proof
    fix u assume "u \<in> set (drop i vs)"
    then obtain j where j: "j < length vs - i" "u = vs ! (i + j)"
      using i by (auto simp: in_set_conv_nth)
    show "u \<le> vs ! i"
    proof (cases "j = 0")
      case True
      with j show ?thesis by simp
    next
      case False
      then have "i < i + j" by simp
      with s j show ?thesis by (simp add: sorted_wrt_iff_nth_less)
    qed
  qed
  have "filter (\<lambda>u. vs ! i < u) vs =
        filter (\<lambda>u. vs ! i < u) (take i vs) @ filter (\<lambda>u. vs ! i < u) (drop i vs)"
    by (metis append_take_drop_id filter_append)
  also have "\<dots> = filter (\<lambda>u. vs ! i < u) (take i vs)"
    by (simp add: filter_none_greater [OF after])
  finally have "length (filter (\<lambda>u. vs ! i < u) vs) + length (filter (\<lambda>u. u = vs ! i) (take i vs)) =
      length (take i vs)"
    by (simp only: count_ge_split [OF before])
  with i show ?thesis by simp
qed

lemma rank_first_desc_sorted:
  assumes s: "sorted_wrt (\<lambda>a b. b \<le> a) vs" and d: "\<forall>v \<in> set vs. v \<noteq> None"
  shows "rank_first_desc vs = map Some [1..<Suc (length vs)]"
proof (rule nth_equalityI)
  show "length (rank_first_desc vs) = length (map Some [1..<Suc (length vs)])"
    by (simp add: rank_first_desc_def del: upt_Suc)
next
  fix i assume "i < length (rank_first_desc vs)"
  then have i: "i < length vs" by (simp add: rank_first_desc_def)
  with d obtain v where v: "vs ! i = Some v" by (metis nth_mem not_None_eq)
  have "length (filter (\<lambda>u. Some v < u) vs) + length (filter (\<lambda>u. u = Some v) (take i vs)) = i"
    using rank_sorted_position [OF s i] by (simp only: v)
  then have "rank_first_desc vs ! i = Some (Suc i)"
    using i by (simp add: rank_first_desc_def v)
  also have "\<dots> = map Some [1..<Suc (length vs)] ! i"
    using i by (simp del: upt_Suc)
  finally show "rank_first_desc vs ! i = map Some [1..<Suc (length vs)] ! i" .
qed

lemma those_map_Some: "those (map Some xs) = Some xs"
  by (induction xs) simp_all

lemma zone_agg_zones: "map zs_Zone (zone_agg long) = sort (remdups (map Zone long))"
  by (simp add: zone_agg_def groupby_def comp_def zone_stats_def)

lemma zone_agg_mean: "r \<in> set (zone_agg long) \<Longrightarrow> Mean r \<noteq> None"
proof -
  assume "r \<in> set (zone_agg long)"
  then obtain z where z: "z \<in> set (map Zone long)"
    and r: "r = zone_stats z (map Price (filter (\<lambda>x. Zone x = z) long))"
    by (auto simp: zone_agg_def groupby_def)
  from z have "filter (\<lambda>x. Zone x = z) long \<noteq> []"
    by (auto simp: filter_empty_conv)
  then show ?thesis by (simp add: r zone_stats_def mean_def)
qed

lemma with_rank_sorted:
  assumes "sort_values Mean False (zone_agg long) ys"
  shows "with_rank ys = Inr (zip ys [1..<Suc (length ys)])"
proof -
  from assms have m: "mset ys = mset (zone_agg long)"
    and s: "sorted_wrt (\<lambda>a b. Mean b \<le> Mean a) ys"
    by (simp_all add: sort_values_def)
  from m have "set ys = set (zone_agg long)" by (rule mset_eq_setD)
  then have d: "\<forall>v \<in> set (map Mean ys). v \<noteq> None"
    using zone_agg_mean [of _ long] by auto
  from s have "sorted_wrt (\<lambda>a b. b \<le> a) (map Mean ys)" by (simp add: sorted_wrt_map)
  from rank_first_desc_sorted [OF this d]
  show ?thesis by (simp add: with_rank_def astype_int_def those_map_Some del: upt_Suc)
qed

lemma zone_summary_total: "\<exists>ys out. zone_summary df ys out"
  unfolding zone_summary_def using sort_values_stable by blast

lemma stacked_zones:
  "set (map Zone (stacked df)) = {z. \<exists>d p. (d, z, Some p) \<in> set (cells_of df)}"
proof -
  have "set (map (\<lambda>r. (Date r, Zone r, Some (Price r))) (stacked df)) =
        set (filter (\<lambda>(d, z, c). c \<noteq> None) (cells_of df))"
    by (simp only: stacked_cells)
  then have e: "(\<lambda>r. (Date r, Zone r, Some (Price r))) ` set (stacked df) =
        {x \<in> set (cells_of df). case x of (d, z, c) \<Rightarrow> c \<noteq> None}"
    by simp
  show ?thesis
  proof (intro set_eqI iffI)
    fix z assume "z \<in> set (map Zone (stacked df))"
    then obtain r where r: "r \<in> set (stacked df)" "Zone r = z" by auto
    then have "(Date r, z, Some (Price r)) \<in> (\<lambda>r. (Date r, Zone r, Some (Price r))) ` set (stacked df)"
      by force
    with e have "(Date r, z, Some (Price r)) \<in> set (cells_of df)" by simp
    then show "z \<in> {z. \<exists>d p. (d, z, Some p) \<in> set (cells_of df)}" by blast
  next
    fix z assume "z \<in> {z. \<exists>d p. (d, z, Some p) \<in> set (cells_of df)}"
    then obtain d p where "(d, z, Some p) \<in> set (cells_of df)" by blast
    then have "(d, z, Some p) \<in> {x \<in> set (cells_of df). case x of (d, z, c) \<Rightarrow> c \<noteq> None}"
      by simp
    with e obtain r where "r \<in> set (stacked df)" "(Date r, Zone r, Some (Price r)) = (d, z, Some p)"
      by (metis (no_types, lifting) imageE)
    then show "z \<in> set (map Zone (stacked df))" by force
  qed
qed

lemma zone_agg_row:
  assumes "r \<in> set (zone_agg (stacked df))"
  shows "r = zone_stats (zs_Zone r) (present (column df (zs_Zone r)))"
proof -
  from assms obtain z where "r = zone_stats z (present (column df z))"
    by (auto simp: zone_agg_columns)
  moreover from this have "zs_Zone r = z" by (simp add: zone_stats_def)
  ultimately show ?thesis by simp
qed

lemma full_frame_zones:
  assumes "rectangular df" and "no_missing df" and "rows df \<noteq> []" and "distinct (zone_cols df)"
  shows "length (remdups (map Zone (stacked df))) = length (zone_cols df)"
proof -
  have "map (\<lambda>r. (Date r, Zone r)) (stacked df) = List.product (map fst (rows df)) (zone_cols df)"
    using assms(1,2) by (simp add: rectangular_def no_missing_def stacked_def stacked_pairs_rows)
  then have "map snd (map (\<lambda>r. (Date r, Zone r)) (stacked df)) =
             map snd (List.product (map fst (rows df)) (zone_cols df))"
    by simp
  then have "set (map Zone (stacked df)) = snd ` set (List.product (map fst (rows df)) (zone_cols df))"
    by (simp add: comp_def image_image)
  also have "\<dots> = set (zone_cols df)"
    using assms(3) by (simp add: snd_image_times)
  finally have "card (set (map Zone (stacked df))) = card (set (zone_cols df))" by simp
  then show ?thesis
    using assms(4) by (simp add: length_remdups_card_conv distinct_card)
qed

text \<open>
  C1, as amended. A zone summary exists for every frame. It has one row per zone that
  holds at least one price (all zones, when the frame is full), each with the mean of
  the values present in the zone's column; its rows are a reordering of the grouped
  table, which lists the zones in label order, and they stand in descending order of
  mean; the rank of a row is its position, counted from 1, so the ranks are exactly
  1, 2, \<dots> up to the number of rows, and rank 1 is on a highest mean. Where two
  means are equal the sort decides the order, not the column order of the frame.
\<close>

theorem C1_zone_ranks:
  "(\<exists>ys out. zone_summary df ys out) \<and>
   (\<forall>ys out. zone_summary df ys out \<longrightarrow>
      out = Inr (zip ys [1..<Suc (length ys)]) \<and>
      mset ys = mset (zone_agg (stacked df)) \<and>
      map zs_Zone (zone_agg (stacked df)) = sort (remdups (map Zone (stacked df))) \<and>
      distinct (map zs_Zone ys) \<and>
      set (map zs_Zone ys) = {z. \<exists>d p. (d, z, Some p) \<in> set (cells_of df)} \<and>
      (\<forall>i j. i < j \<and> j < length ys \<longrightarrow> Mean (ys ! j) \<le> Mean (ys ! i)) \<and>
      (\<forall>r \<in> set ys. Mean r \<noteq> None \<and> Mean r = mean (present (column df (zs_Zone r)))) \<and>
      (rectangular df \<and> no_missing df \<and> rows df \<noteq> [] \<and> distinct (zone_cols df) \<longrightarrow>
         length ys = length (zone_cols df)))"
proof (intro conjI allI impI ballI)
  show "\<exists>ys out. zone_summary df ys out" by (rule zone_summary_total)
next
  fix ys out
  assume "zone_summary df ys out"
  then have sv: "sort_values Mean False (zone_agg (stacked df)) ys" and o: "out = with_rank ys"
    by (simp_all add: zone_summary_def)
  from sv have m: "mset ys = mset (zone_agg (stacked df))"
    and s: "sorted_wrt (\<lambda>a b. Mean b \<le> Mean a) ys"
    by (simp_all add: sort_values_def)
  from m have st: "set ys = set (zone_agg (stacked df))" by (rule mset_eq_setD)
  have zm: "mset (map zs_Zone ys) = mset (remdups (map Zone (stacked df)))"
  proof -
    have "mset (map zs_Zone ys) = mset (map zs_Zone (zone_agg (stacked df)))"
      using m by simp
    then show ?thesis by (simp only: zone_agg_zones mset_sort)
  qed
  show "out = Inr (zip ys [1..<Suc (length ys)])"
    using with_rank_sorted [OF sv] o by simp
  show "mset ys = mset (zone_agg (stacked df))" by (rule m)
  show "map zs_Zone (zone_agg (stacked df)) = sort (remdups (map Zone (stacked df)))"
    by (rule zone_agg_zones)
  show "distinct (map zs_Zone ys)"
    using mset_eq_imp_distinct_iff [OF zm] by simp
  show "set (map zs_Zone ys) = {z. \<exists>d p. (d, z, Some p) \<in> set (cells_of df)}"
  proof -
    have "set (map zs_Zone ys) = set (remdups (map Zone (stacked df)))"
      using zm by (rule mset_eq_setD)
    then show ?thesis by (simp only: set_remdups stacked_zones)
  qed
  {
    fix i j assume "i < j \<and> j < length ys"
    with s show "Mean (ys ! j) \<le> Mean (ys ! i)" by (simp add: sorted_wrt_iff_nth_less)
  }
  {
    fix r assume "r \<in> set ys"
    then have r: "r \<in> set (zone_agg (stacked df))" using st by simp
    then show "Mean r \<noteq> None" by (rule zone_agg_mean)
    from zone_agg_row [OF r] have "Mean r = Mean (zone_stats (zs_Zone r) (present (column df (zs_Zone r))))"
      by simp
    then show "Mean r = mean (present (column df (zs_Zone r)))"
      by (simp add: zone_stats_def)
  }
  {
    assume "rectangular df \<and> no_missing df \<and> rows df \<noteq> [] \<and> distinct (zone_cols df)"
    then have "length (remdups (map Zone (stacked df))) = length (zone_cols df)"
      by (simp add: full_frame_zones)
    moreover have "length ys = length (remdups (map Zone (stacked df)))"
      using mset_eq_length [OF zm] by simp
    ultimately show "length ys = length (zone_cols df)" by simp
  }
qed

lemma Mean_zone_stats: "Mean (zone_stats z ps) = mean ps"
  by (simp add: zone_stats_def)

lemma agg_full:
  "zone_agg (stacked df_full) = [zone_stats ''A'' [10, 12], zone_stats ''B'' [20, 18]]"
proof -
  have "map Zone (stacked df_full) = [''A'', ''B'', ''A'', ''B'']"
    by (simp add: stacked_def stack_row_def df_full_def List.map_filter_simps)
  moreover have "present (column df_full ''A'') = [10, 12]"
    and "present (column df_full ''B'') = [20, 18]"
    by (simp_all add: column_def cells_of_def df_full_def)
  ultimately show ?thesis by (simp add: zone_agg_columns)
qed

lemma agg_gap: "zone_agg (stacked df_gap) = [zone_stats ''A'' [10]]"
proof -
  have "map Zone (stacked df_gap) = [''A'']"
    by (simp add: stacked_def stack_row_def df_gap_def List.map_filter_simps)
  moreover have "present (column df_gap ''A'') = [10]"
    by (simp add: column_def cells_of_def df_gap_def)
  ultimately show ?thesis by (simp add: zone_agg_columns)
qed

lemma agg_tie: "zone_agg (stacked df_tie) = [zone_stats ''A'' [10], zone_stats ''B'' [10]]"
proof -
  have "map Zone (stacked df_tie) = [''B'', ''A'']"
    by (simp add: stacked_def stack_row_def df_tie_def List.map_filter_simps)
  moreover have "present (column df_tie ''A'') = [10]"
    and "present (column df_tie ''B'') = [10]"
    by (simp_all add: column_def cells_of_def df_tie_def)
  ultimately show ?thesis by (simp add: zone_agg_columns)
qed

theorem C1_zone_ranks_witness:
  "zone_summary df_full [zone_stats ''B'' [20, 18], zone_stats ''A'' [10, 12]]
     (Inr [(zone_stats ''B'' [20, 18], 1), (zone_stats ''A'' [10, 12], 2)]) \<and>
   Mean (zone_stats ''B'' [20, 18]) = Some 19 \<and>
   Mean (zone_stats ''A'' [10, 12]) = Some 11 \<and>
   length (zone_cols df_full) = 2"
proof -
  let ?ys = "[zone_stats ''B'' [20, 18], zone_stats ''A'' [10, 12]]"
  have mb: "Mean (zone_stats ''B'' [20, 18]) = Some 19"
    and ma: "Mean (zone_stats ''A'' [10, 12]) = Some 11"
    by (simp_all add: Mean_zone_stats mean_def)
  have "sort_values Mean False (zone_agg (stacked df_full)) ?ys"
    by (simp add: sort_values_def agg_full ma mb)
  then have z: "zone_summary df_full ?ys (with_rank ?ys)"
    by (simp add: zone_summary_def)
  with C1_zone_ranks [of df_full] have "with_rank ?ys = Inr (zip ?ys [1..<Suc (length ?ys)])"
    by blast
  then have "with_rank ?ys =
      Inr [(zone_stats ''B'' [20, 18], 1), (zone_stats ''A'' [10, 12], 2)]"
    by (simp add: upt_rec)
  with z mb ma show ?thesis by (simp add: df_full_def)
qed

text \<open>
  C1 as the specification states it fails in two ways. In a frame of two zones of
  which one has no price at all, the summary has one row and the single rank 1, not
  a permutation of 1, 2. And in a frame whose columns are B, A, with equal means, the
  grouped table lists A before B, a stable sort keeps that order, and A gets rank 1
  although B is the first column.
\<close>

theorem C1_counterexample:
  "zone_summary df_gap [zone_stats ''A'' [10]] (Inr [(zone_stats ''A'' [10], 1)]) \<and>
   length (zone_cols df_gap) = 2 \<and>
   zone_cols df_tie = [''B'', ''A''] \<and>
   zone_agg (stacked df_tie) = [zone_stats ''A'' [10], zone_stats ''B'' [10]] \<and>
   stable_sort_values Mean False (zone_agg (stacked df_tie)) =
     [zone_stats ''A'' [10], zone_stats ''B'' [10]] \<and>
   zone_summary df_tie [zone_stats ''A'' [10], zone_stats ''B'' [10]]
     (Inr [(zone_stats ''A'' [10], 1), (zone_stats ''B'' [10], 2)])"
proof -
  have g: "sort_values Mean False (zone_agg (stacked df_gap)) [zone_stats ''A'' [10]]"
    by (simp add: sort_values_def agg_gap)
  have t: "sort_values Mean False (zone_agg (stacked df_tie))
             [zone_stats ''A'' [10], zone_stats ''B'' [10]]"
    by (simp add: sort_values_def agg_tie Mean_zone_stats)
  have "zone_summary df_gap [zone_stats ''A'' [10]] (Inr [(zone_stats ''A'' [10], 1)])"
    using g with_rank_sorted [OF g] by (simp add: zone_summary_def)
  moreover have "zone_summary df_tie [zone_stats ''A'' [10], zone_stats ''B'' [10]]
     (Inr [(zone_stats ''A'' [10], 1), (zone_stats ''B'' [10], 2)])"
    using t with_rank_sorted [OF t] by (simp add: zone_summary_def upt_rec)
  moreover have "stable_sort_values Mean False (zone_agg (stacked df_tie)) =
     [zone_stats ''A'' [10], zone_stats ''B'' [10]]"
    by (simp add: stable_sort_values_def agg_tie Mean_zone_stats)
  moreover have "length (zone_cols df_gap) = 2" "zone_cols df_tie = [''B'', ''A'']"
    by (simp_all add: df_gap_def df_tie_def)
  ultimately show ?thesis using agg_tie by blast
qed

section \<open>Standard deviation and quantiles: properties\<close>

lemma std_sample:
  "std xs =
     (if length xs < 2 then None
      else Some (sqrt (sum_list (map (\<lambda>x. (x - sum_list xs / real (length xs))\<^sup>2) xs)
                        / (real (length xs) - 1))))"
proof (cases "length xs < 2")
  case True
  then show ?thesis by (simp add: std_def var_of_def)
next
  case False
  then have "real (length xs - 1) = real (length xs) - 1" by (simp add: of_nat_diff)
  with False show ?thesis by (simp add: std_def var_of_def ssqdm_def Let_def)
qed

lemma quantile_between:
  assumes ne: "xs \<noteq> []" and q0: "0 \<le> q" and q1: "q \<le> 1"
  defines "h \<equiv> real (length xs - 1) * q"
  defines "lo \<equiv> nat \<lfloor>h\<rfloor>"
  defines "hi \<equiv> min (lo + 1) (length xs - 1)"
  shows "quantile q xs = Some ((1 - (h - real lo)) * sort xs ! lo + (h - real lo) * sort xs ! hi)"
    and "sort xs ! lo \<le> (1 - (h - real lo)) * sort xs ! lo + (h - real lo) * sort xs ! hi"
    and "(1 - (h - real lo)) * sort xs ! lo + (h - real lo) * sort xs ! hi \<le> sort xs ! hi"
    and "lo \<le> hi" and "hi < length xs"
proof -
  let ?n = "length xs"
  let ?s = "sort xs"
  have n: "0 < ?n" using ne by simp
  have h0: "0 \<le> h" using q0 by (simp add: h_def)
  have h1: "h \<le> real (?n - 1)"
    using q1 by (simp add: h_def mult_left_le)
  have fl: "real lo = of_int \<lfloor>h\<rfloor>" using h0 by (simp add: lo_def)
  have f0: "0 \<le> h - real lo" and f1: "h - real lo \<le> 1"
    unfolding fl by linarith+
  have "\<lfloor>h\<rfloor> \<le> int (?n - 1)" using h1 by (simp add: floor_le_iff)
  then have lo_le: "lo \<le> ?n - 1" by (simp add: lo_def)
  show lohi: "lo \<le> hi" using lo_le by (simp add: hi_def)
  have "?n - 1 < ?n" using n by simp
  then show hin: "hi < ?n" unfolding hi_def by (rule min.strict_coboundedI2)
  have "sorted ?s" by simp
  then have le: "?s ! lo \<le> ?s ! hi"
    using lohi hin by (simp add: sorted_iff_nth_mono)
  show "quantile q xs = Some ((1 - (h - real lo)) * ?s ! lo + (h - real lo) * ?s ! hi)"
    using ne by (simp add: quantile_def Let_def h_def lo_def hi_def algebra_simps)
  have eq: "(1 - (h - real lo)) * ?s ! lo + (h - real lo) * ?s ! hi =
            ?s ! lo + (h - real lo) * (?s ! hi - ?s ! lo)"
    by (simp add: algebra_simps)
  show "?s ! lo \<le> (1 - (h - real lo)) * ?s ! lo + (h - real lo) * ?s ! hi"
    unfolding eq using f0 le by simp
  have "(h - real lo) * (?s ! hi - ?s ! lo) \<le> 1 * (?s ! hi - ?s ! lo)"
    using f1 le by (intro mult_right_mono) simp_all
  then show "(1 - (h - real lo)) * ?s ! lo + (h - real lo) * ?s ! hi \<le> ?s ! hi"
    unfolding eq by simp
qed

lemma median_is_quantile: "median xs = quantile (1 / 2) xs"
proof (cases "xs = []")
  case True
  then show ?thesis by (simp add: median_def quantile_def)
next
  case False
  let ?n = "length xs"
  have n: "0 < ?n" using False by simp
  show ?thesis
  proof (cases "odd ?n")
    case True
    then obtain k where k: "?n = 2 * k + 1" by (auto elim: oddE)
    have "real (?n - 1) * (1 / 2) = real k" by (simp add: k)
    then have "quantile (1 / 2) xs = Some (sort xs ! k)"
      using False by (simp add: quantile_def Let_def)
    moreover have "median xs = Some (sort xs ! k)"
      using False True by (simp add: median_def Let_def k)
    ultimately show ?thesis by simp
  next
    case even: False
    then obtain k where k: "?n = 2 * k" by (auto elim: evenE)
    with n have k1: "1 \<le> k" by simp
    have h: "real (?n - 1) * (1 / 2) = real (k - 1) + 1 / 2"
      using k1 by (simp add: k of_nat_diff field_simps)
    have fl: "\<lfloor>real (k - 1) + 1 / 2\<rfloor> = int (k - 1)" by linarith
    have hi: "min (Suc (k - Suc 0)) (?n - Suc 0) = k" using k1 by (simp add: k)
    have "quantile (1 / 2) xs =
            Some (sort xs ! (k - 1) + (1 / 2) * (sort xs ! k - sort xs ! (k - 1)))"
      using False unfolding quantile_def Let_def h fl by (simp add: hi)
    moreover have "median xs = Some ((sort xs ! (k - 1) + sort xs ! k) / 2)"
      using False even by (simp add: median_def Let_def k)
    ultimately show ?thesis by (simp add: field_simps)
  qed
qed

lemma seasonal_std:
  assumes "list_all (\<lambda>r. 1 \<le> month (Date r) \<and> month (Date r) \<le> 12) long"
  shows "\<exists>rows. seasonal long = Inr rows \<and>
           map s_std rows =
             map (\<lambda>s. std (map Price
                    (filter (\<lambda>r. season_of_month (month (Date r)) = Inr s) long)))
               season_order"
proof -
  have "map s_std (map (\<lambda>s. season_stats s (map Price
            (filter (\<lambda>r. season_of_month (month (Date r)) = Inr s) long))) season_order) =
        map (\<lambda>s. std (map Price
            (filter (\<lambda>r. season_of_month (month (Date r)) = Inr s) long))) season_order"
    by (simp add: season_stats_def comp_def)
  with seasonal_rows [OF assms] show ?thesis by blast
qed

lemma zone_row_std:
  assumes "zone_summary df ys out" and "r \<in> set ys"
  shows "Stdev r = std (present (column df (zs_Zone r))) \<and>
         P95 r = quantile (95 / 100) (present (column df (zs_Zone r)))"
proof -
  from assms(1) have "mset ys = mset (zone_agg (stacked df))"
    by (simp add: zone_summary_def sort_values_def)
  then have "set ys = set (zone_agg (stacked df))" by (rule mset_eq_setD)
  with assms(2) have "r \<in> set (zone_agg (stacked df))" by simp
  from zone_agg_row [OF this]
  have "Stdev r = Stdev (zone_stats (zs_Zone r) (present (column df (zs_Zone r))))"
    and "P95 r = P95 (zone_stats (zs_Zone r) (present (column df (zs_Zone r))))"
    by simp_all
  then show ?thesis by (simp add: zone_stats_def)
qed

text \<open>
  C9. The standard deviation is the sample one: the root of the sum of squared
  deviations from the mean over the count less one, and it is missing (neither 0 nor
  an error) for fewer than two values. This is the statistic of the KPI block (over
  all prices of the long form), of each row of the zone summary (over the values
  present in the zone's column), of each seasonal row (over the prices of the season)
  and of the rolling volatility (over the window's observations). A quantile, the
  95th percentile of the KPI block and of the zone summary among them, interpolates
  linearly between two neighbouring order statistics, and lies between them; the
  median is the quantile at one half.
\<close>

theorem C9_sample_std_linear_quantile:
  "std xs =
     (if length xs < 2 then None
      else Some (sqrt (sum_list (map (\<lambda>x. (x - sum_list xs / real (length xs))\<^sup>2) xs)
                        / (real (length xs) - 1)))) \<and>
   ov_Stdev (overall_kpis df) = std (map Price (stacked df)) \<and>
   ov_P95 (overall_kpis df) = quantile (95 / 100) (map Price (stacked df)) \<and>
   (\<forall>ys out. zone_summary df ys out \<longrightarrow>
      (\<forall>r \<in> set ys. Stdev r = std (present (column df (zs_Zone r))) \<and>
                     P95 r = quantile (95 / 100) (present (column df (zs_Zone r))))) \<and>
   (list_all (\<lambda>r. 1 \<le> month (Date r) \<and> month (Date r) \<le> 12) long \<longrightarrow>
      (\<exists>rows. seasonal long = Inr rows \<and>
         map s_std rows =
           map (\<lambda>s. std (map Price
                  (filter (\<lambda>r. season_of_month (month (Date r)) = Inr s) long)))
             season_order)) \<and>
   (i < length (rows df) \<longrightarrow>
      RollVol30d (roll df) ! i =
        (if length (present (window 720 (Avg (roll df)) i)) < 24 then None
         else std (present (window 720 (Avg (roll df)) i)))) \<and>
   quantile q [] = None \<and>
   (xs \<noteq> [] \<and> 0 \<le> q \<and> q \<le> 1 \<longrightarrow>
      (let s = sort xs;
           h = real (length xs - 1) * q;
           lo = nat \<lfloor>h\<rfloor>;
           hi = min (lo + 1) (length xs - 1);
           v = (1 - (h - real lo)) * s ! lo + (h - real lo) * s ! hi
       in quantile q xs = Some v \<and> lo \<le> hi \<and> hi < length xs \<and> s ! lo \<le> v \<and> v \<le> s ! hi)) \<and>
   median xs = quantile (1 / 2) xs"
proof -
  have kpi: "ov_Stdev (overall_kpis df) = std (map Price (stacked df))"
    "ov_P95 (overall_kpis df) = quantile (95 / 100) (map Price (stacked df))"
    by (simp_all add: overall_kpis_def Let_def)
  have zs: "\<forall>ys out. zone_summary df ys out \<longrightarrow>
      (\<forall>r \<in> set ys. Stdev r = std (present (column df (zs_Zone r))) \<and>
                     P95 r = quantile (95 / 100) (present (column df (zs_Zone r))))"
    using zone_row_std by blast
  have se: "list_all (\<lambda>r. 1 \<le> month (Date r) \<and> month (Date r) \<le> 12) long \<longrightarrow>
      (\<exists>rows. seasonal long = Inr rows \<and>
         map s_std rows =
           map (\<lambda>s. std (map Price
                  (filter (\<lambda>r. season_of_month (month (Date r)) = Inr s) long)))
             season_order)"
    using seasonal_std by blast
  have ro: "i < length (rows df) \<longrightarrow>
      RollVol30d (roll df) ! i =
        (if length (present (window 720 (Avg (roll df)) i)) < 24 then None
         else std (present (window 720 (Avg (roll df)) i)))"
  proof
    assume "i < length (rows df)"
    then have "i < length (Avg (roll df))" by (simp add: roll_def Let_def)
    from rolling_nth [OF this, of 720 24 std]
    show "RollVol30d (roll df) ! i =
        (if length (present (window 720 (Avg (roll df)) i)) < 24 then None
         else std (present (window 720 (Avg (roll df)) i)))"
      by (simp add: roll_def Let_def)
  qed
  have q0: "quantile q [] = None" by (simp add: quantile_def)
  have qu: "xs \<noteq> [] \<and> 0 \<le> q \<and> q \<le> 1 \<longrightarrow>
      (let s = sort xs;
           h = real (length xs - 1) * q;
           lo = nat \<lfloor>h\<rfloor>;
           hi = min (lo + 1) (length xs - 1);
           v = (1 - (h - real lo)) * s ! lo + (h - real lo) * s ! hi
       in quantile q xs = Some v \<and> lo \<le> hi \<and> hi < length xs \<and> s ! lo \<le> v \<and> v \<le> s ! hi)"
    unfolding Let_def using quantile_between [of xs q] by blast
  from std_sample [of xs] kpi zs se ro q0 qu median_is_quantile [of xs]
  show ?thesis by blast
qed

theorem C9_sample_std_linear_quantile_witness:
  "std [10, 12] = Some (sqrt 2) \<and>
   std [30] = None \<and>
   std [] = None \<and>
   quantile (95 / 100) [1, 2, 3] = Some (29 / 10) \<and>
   median [4, 1, 3, 2] = quantile (1 / 2) [4, 1, 3, 2] \<and>
   ov_Stdev (overall_kpis df_gap) = None"
proof -
  note a = C9_sample_std_linear_quantile [of "[10, 12]" df_gap "[]" 0 "95 / 100"]
  note b = C9_sample_std_linear_quantile [of "[30]" df_gap "[]" 0 "95 / 100"]
  note c = C9_sample_std_linear_quantile [of "[]" df_gap "[]" 0 "95 / 100"]
  note d = C9_sample_std_linear_quantile [of "[1, 2, 3]" df_gap "[]" 0 "95 / 100"]
  note e = C9_sample_std_linear_quantile [of "[4, 1, 3, 2]" df_gap "[]" 0 "95 / 100"]
  from a have "std [10, 12] =
      (if length [10, 12 :: real] < 2 then None
       else Some (sqrt (sum_list (map (\<lambda>x. (x - sum_list [10, 12] / real (length [10, 12 :: real]))\<^sup>2)
              [10, 12]) / (real (length [10, 12 :: real]) - 1))))" by blast
  then have s2: "std [10, 12] = Some (sqrt 2)" by simp
  from b have "std [30] =
      (if length [30 :: real] < 2 then None
       else Some (sqrt (sum_list (map (\<lambda>x. (x - sum_list [30] / real (length [30 :: real]))\<^sup>2)
              [30]) / (real (length [30 :: real]) - 1))))" by blast
  then have s1: "std [30] = None" by simp
  from c have "std [] =
      (if length ([] :: real list) < 2 then None
       else Some (sqrt (sum_list (map (\<lambda>x. (x - sum_list [] / real (length ([] :: real list)))\<^sup>2)
              []) / (real (length ([] :: real list)) - 1))))" by blast
  then have s0: "std [] = None" by simp
  have pre: "[1, 2, 3 :: real] \<noteq> [] \<and> (0 :: real) \<le> 95 / 100 \<and> (95 / 100 :: real) \<le> 1"
    by simp
  from d pre have "let s = sort [1, 2, 3 :: real];
           h = real (length [1, 2, 3 :: real] - 1) * (95 / 100);
           lo = nat \<lfloor>h\<rfloor>;
           hi = min (lo + 1) (length [1, 2, 3 :: real] - 1);
           v = (1 - (h - real lo)) * s ! lo + (h - real lo) * s ! hi
       in quantile (95 / 100) [1, 2, 3] = Some v \<and> lo \<le> hi \<and> hi < length [1, 2, 3 :: real] \<and>
          s ! lo \<le> v \<and> v \<le> s ! hi"
    by blast
  then have qv: "quantile (95 / 100) [1, 2, 3] = Some (29 / 10)"
    by (simp add: Let_def)
  from e have md: "median [4, 1, 3, 2] = quantile (1 / 2) [4, 1, 3, 2]" by blast
  from a have "ov_Stdev (overall_kpis df_gap) = std (map Price (stacked df_gap))" by blast
  then have ov: "ov_Stdev (overall_kpis df_gap) = None"
    by (simp add: stacked_def stack_row_def df_gap_def List.map_filter_simps std_def var_of_def)
  from s2 s1 s0 qv md ov show ?thesis by blast
qed

section \<open>The loader: properties\<close>

lemma those_Some_iff:
  "those xs = Some ys \<longleftrightarrow> xs = map Some ys"
proof (induction xs arbitrary: ys)
  case Nil
  then show ?case by auto
next
  case (Cons x xs)
  then show ?case by (cases x; cases ys) (auto split: option.splits)
qed

lemma those_None_iff: "those xs = None \<longleftrightarrow> None \<in> set xs"
proof (induction xs)
  case Nil
  then show ?case by simp
next
  case (Cons x xs)
  then show ?case by (cases x) (auto split: option.splits)
qed

lemma load_data_iff:
  "load_data to_datetime sh out \<longleftrightarrow>
     (if ''Date'' \<notin> set (sh_columns sh) then out = Inl schema_error
      else case those (map (\<lambda>r. to_datetime (date_cell (sh_columns sh) r)) (sh_rows sh)) of
             None \<Rightarrow> out = Inl DateParseError
           | Some ds \<Rightarrow>
               (\<exists>rs. sort_values (\<lambda>p. timestamp_key (fst p)) True (zip ds (sh_rows sh)) rs \<and>
                     out = Inr \<lparr>ld_columns = sh_columns sh, ld_rows = rs\<rparr>))"
  by (auto simp: load_data.simps split: option.splits)

lemma main_iff:
  "main to_datetime build_dashboard sh out \<longleftrightarrow>
     (\<exists>l. load_data to_datetime sh l \<and>
          (case l of
             Inl e \<Rightarrow> out = Inl e
           | Inr df \<Rightarrow> (\<exists>d. build_dashboard df d \<and> out = Inr d)))"
proof
  assume "main to_datetime build_dashboard sh out"
  then show "\<exists>l. load_data to_datetime sh l \<and>
          (case l of
             Inl e \<Rightarrow> out = Inl e
           | Inr df \<Rightarrow> (\<exists>d. build_dashboard df d \<and> out = Inr d))"
  proof cases
    case (raised e)
    then show ?thesis by (intro exI [of _ "Inl e"]) simp
  next
    case (built df d)
    then show ?thesis by (intro exI [of _ "Inr df"]) auto
  qed
next
  assume "\<exists>l. load_data to_datetime sh l \<and>
          (case l of
             Inl e \<Rightarrow> out = Inl e
           | Inr df \<Rightarrow> (\<exists>d. build_dashboard df d \<and> out = Inr d))"
  then obtain l where l: "load_data to_datetime sh l"
    and c: "case l of Inl e \<Rightarrow> out = Inl e
            | Inr df \<Rightarrow> (\<exists>d. build_dashboard df d \<and> out = Inr d)"
    by blast
  show "main to_datetime build_dashboard sh out"
  proof (cases l)
    case (Inl e)
    with l c show ?thesis by (auto intro: main.raised)
  next
    case (Inr df)
    with l c show ?thesis by (auto intro: main.built)
  qed
qed

lemma load_data_total: "\<exists>out. load_data P sh out"
proof (cases "''Date'' \<notin> set (sh_columns sh)")
  case True
  then show ?thesis by (simp add: load_data_iff)
next
  case False
  show ?thesis
  proof (cases "those (map (\<lambda>r. P (date_cell (sh_columns sh) r)) (sh_rows sh))")
    case None
    with False show ?thesis by (simp add: load_data_iff)
  next
    case (Some ds)
    with False show ?thesis
      using sort_values_stable [of "\<lambda>p. timestamp_key (fst p)" True "zip ds (sh_rows sh)"]
      by (auto simp: load_data_iff)
  qed
qed

lemma load_data_absent:
  "''Date'' \<notin> set (sh_columns sh) \<Longrightarrow> load_data P sh out \<longleftrightarrow> out = Inl schema_error"
  by (simp add: load_data_iff)

lemma main_absent:
  "''Date'' \<notin> set (sh_columns sh) \<Longrightarrow> main P B sh out \<longleftrightarrow> out = Inl schema_error"
  by (auto simp: main_iff load_data_absent)

lemma load_data_present:
  assumes "''Date'' \<in> set (sh_columns sh)"
  shows "\<not> load_data P sh (Inl schema_error)"
  using assms by (simp add: load_data_iff schema_error_def split: option.splits)

lemma load_data_sorted:
  assumes "load_data P sh (Inr l)"
  shows "ld_columns l = sh_columns sh \<and>
         length (ld_rows l) = length (sh_rows sh) \<and>
         sorted (map (\<lambda>p. timestamp_key (fst p)) (ld_rows l)) \<and>
         mset (map snd (ld_rows l)) = mset (sh_rows sh) \<and>
         (\<forall>p \<in> set (ld_rows l). P (date_cell (sh_columns sh) (snd p)) = Some (fst p))"
proof -
  from assms have d: "''Date'' \<in> set (sh_columns sh)"
    by (auto simp: load_data_iff split: if_splits)
  with assms obtain ds rs where
    ds: "those (map (\<lambda>r. P (date_cell (sh_columns sh) r)) (sh_rows sh)) = Some ds"
    and sv: "sort_values (\<lambda>p. timestamp_key (fst p)) True (zip ds (sh_rows sh)) rs"
    and l: "l = \<lparr>ld_columns = sh_columns sh, ld_rows = rs\<rparr>"
    by (auto simp: load_data_iff split: option.splits)
  from ds have m: "map (\<lambda>r. P (date_cell (sh_columns sh) r)) (sh_rows sh) = map Some ds"
    by (simp add: those_Some_iff)
  then have len: "length ds = length (sh_rows sh)"
    by (metis length_map)
  from sv have ms: "mset rs = mset (zip ds (sh_rows sh))"
    and so: "sorted_wrt (\<lambda>a b. timestamp_key (fst a) \<le> timestamp_key (fst b)) rs"
    by (simp_all add: sort_values_def)
  have "length rs = length (zip ds (sh_rows sh))" using ms by (rule mset_eq_length)
  then have c2: "length rs = length (sh_rows sh)" using len by simp
  have c3: "sorted (map (\<lambda>p. timestamp_key (fst p)) rs)"
    using so by (simp add: sorted_wrt_map)
  have "mset (map snd rs) = mset (map snd (zip ds (sh_rows sh)))"
    using ms by simp
  then have c4: "mset (map snd rs) = mset (sh_rows sh)"
    using len by simp
  have c5: "\<forall>p \<in> set rs. P (date_cell (sh_columns sh) (snd p)) = Some (fst p)"
  proof
    fix p assume "p \<in> set rs"
    then have "p \<in> set (zip ds (sh_rows sh))" using ms by (metis mset_eq_setD)
    then obtain i where i: "i < length (sh_rows sh)" "p = (ds ! i, sh_rows sh ! i)"
      using len by (auto simp: set_zip)
    from m i(1) have "map (\<lambda>r. P (date_cell (sh_columns sh) r)) (sh_rows sh) ! i = map Some ds ! i"
      by simp
    with i len show "P (date_cell (sh_columns sh) (snd p)) = Some (fst p)" by simp
  qed
  from c2 c3 c4 c5 show ?thesis by (simp add: l)
qed

lemma load_data_ok:
  assumes "''Date'' \<in> set (sh_columns sh)"
    and "\<forall>r \<in> set (sh_rows sh). P (date_cell (sh_columns sh) r) \<noteq> None"
  shows "\<exists>l. load_data P sh (Inr l)"
proof -
  from assms(2) have "None \<notin> set (map (\<lambda>r. P (date_cell (sh_columns sh) r)) (sh_rows sh))"
    by auto
  then obtain ds where
    "those (map (\<lambda>r. P (date_cell (sh_columns sh) r)) (sh_rows sh)) = Some ds"
    by (metis those_None_iff not_None_eq)
  with assms(1) show ?thesis
    using sort_values_stable [of "\<lambda>p. timestamp_key (fst p)" True "zip ds (sh_rows sh)"]
    by (auto simp: load_data_iff)
qed

lemma date_cell_nth:
  assumes "i < length cols" and "i < length r" and "cols ! i = ''Date''"
    and "''Date'' \<notin> set (take i cols)"
  shows "date_cell cols r = r ! i"
proof -
  have "map_of (zip cols r) ''Date'' = Some (r ! i)"
    using assms
  proof (induction cols arbitrary: r i)
    case Nil
    then show ?case by simp
  next
    case (Cons c cols)
    from Cons.prems(2) obtain x xs where r: "r = x # xs" by (cases r) auto
    show ?case
    proof (cases i)
      case 0
      with Cons.prems r show ?thesis by simp
    next
      case (Suc j)
      with Cons.prems r have "c \<noteq> ''Date''" by auto
      moreover from Suc Cons.prems r have "map_of (zip cols xs) ''Date'' = Some (xs ! j)"
        by (intro Cons.IH) auto
      ultimately show ?thesis using r Suc by simp
    qed
  qed
  then show ?thesis by (simp add: date_cell_def)
qed

lemma timestamp_key_le:
  "timestamp_key a \<le> timestamp_key b \<longleftrightarrow>
     year a < year b \<or>
     (year a = year b \<and>
      (month a < month b \<or>
       (month a = month b \<and>
        (day a < day b \<or> (day a = day b \<and> hour a \<le> hour b)))))"
  by (auto simp: timestamp_key_def less_eq_prod_def)

lemma load_data_ascending:
  assumes "load_data P sh (Inr l)"
  shows "sorted_wrt
           (\<lambda>p q. year (fst p) < year (fst q) \<or>
              (year (fst p) = year (fst q) \<and>
               (month (fst p) < month (fst q) \<or>
                (month (fst p) = month (fst q) \<and>
                 (day (fst p) < day (fst q) \<or>
                  (day (fst p) = day (fst q) \<and> hour (fst p) \<le> hour (fst q)))))))
           (ld_rows l)"
proof -
  from load_data_sorted [OF assms]
  have "sorted (map (\<lambda>p. timestamp_key (fst p)) (ld_rows l))" by blast
  then have "sorted_wrt (\<lambda>p q. timestamp_key (fst p) \<le> timestamp_key (fst q)) (ld_rows l)"
    by (simp add: sorted_map)
  then show ?thesis by (simp only: timestamp_key_le)
qed

lemma load_data_parsed:
  assumes "load_data P sh (Inr l)" and "p \<in> set (ld_rows l)"
    and "i < length (sh_columns sh)" and "i < length (snd p)"
    and "sh_columns sh ! i = ''Date''" and "''Date'' \<notin> set (take i (sh_columns sh))"
  shows "P (snd p ! i) = Some (fst p)"
proof -
  from load_data_sorted [OF assms(1)] assms(2)
  have "P (date_cell (sh_columns sh) (snd p)) = Some (fst p)" by blast
  with date_cell_nth [OF assms(3-6)] show ?thesis by simp
qed

lemma load_data_returns:
  assumes "i < length (sh_columns sh)" and "sh_columns sh ! i = ''Date''"
    and "''Date'' \<notin> set (take i (sh_columns sh))"
    and "\<forall>r \<in> set (sh_rows sh). i < length r \<and> P (r ! i) \<noteq> None"
  shows "\<exists>l. load_data P sh (Inr l)"
proof (rule load_data_ok)
  from assms(1,2) show "''Date'' \<in> set (sh_columns sh)" by (metis nth_mem)
  show "\<forall>r \<in> set (sh_rows sh). P (date_cell (sh_columns sh) r) \<noteq> None"
  proof
    fix r assume r: "r \<in> set (sh_rows sh)"
    with assms(4) have "i < length r" "P (r ! i) \<noteq> None" by auto
    with date_cell_nth [OF assms(1) this(1) assms(2,3)]
    show "P (date_cell (sh_columns sh) r) \<noteq> None" by simp
  qed
qed

text \<open>
  C8. The loader always has an outcome. When the sheet has no column labelled Date, its
  only outcome is the \<^verbatim>\<open>ValueError\<close> raised by the column check, and so is the only
  outcome of the whole run, whatever the builder would compute: the builder is never
  reached. When the sheet has the column, the loader never raises that error, and it
  returns a frame whenever the value of every row in the column Date parses. A frame
  it returns has the sheet's labels in their order and the sheet's rows, each paired
  with the timestamp parsed from its value at the position of the column Date,
  wherever in the sheet that column stands; the rows are in ascending order of
  timestamp, comparing the year first, then the month, the day and the hour.
\<close>

theorem C8_loader_schema_and_order:
  "(\<exists>out. load_data P sh out) \<and>
   (''Date'' \<notin> set (sh_columns sh) \<longrightarrow>
      (\<forall>out. load_data P sh out \<longleftrightarrow>
         out = Inl (ValueError ''Input sheet must contain a 'Date' column.'')) \<and>
      (\<forall>out. main P B sh out \<longleftrightarrow>
         out = Inl (ValueError ''Input sheet must contain a 'Date' column.''))) \<and>
   (''Date'' \<in> set (sh_columns sh) \<longrightarrow>
      \<not> load_data P sh (Inl (ValueError ''Input sheet must contain a 'Date' column.'')) \<and>
      (\<forall>i. i < length (sh_columns sh) \<and> sh_columns sh ! i = ''Date'' \<and>
           ''Date'' \<notin> set (take i (sh_columns sh)) \<and>
           (\<forall>r \<in> set (sh_rows sh). i < length r \<and> P (r ! i) \<noteq> None) \<longrightarrow>
         (\<exists>l. load_data P sh (Inr l)))) \<and>
   (\<forall>l. load_data P sh (Inr l) \<longrightarrow>
      ''Date'' \<in> set (sh_columns sh) \<and>
      ld_columns l = sh_columns sh \<and>
      length (ld_rows l) = length (sh_rows sh) \<and>
      mset (map snd (ld_rows l)) = mset (sh_rows sh) \<and>
      sorted_wrt
        (\<lambda>p q. year (fst p) < year (fst q) \<or>
           (year (fst p) = year (fst q) \<and>
            (month (fst p) < month (fst q) \<or>
             (month (fst p) = month (fst q) \<and>
              (day (fst p) < day (fst q) \<or>
               (day (fst p) = day (fst q) \<and> hour (fst p) \<le> hour (fst q)))))))
        (ld_rows l) \<and>
      (\<forall>p \<in> set (ld_rows l). \<forall>i.
         i < length (sh_columns sh) \<and> i < length (snd p) \<and> sh_columns sh ! i = ''Date'' \<and>
         ''Date'' \<notin> set (take i (sh_columns sh)) \<longrightarrow>
         P (snd p ! i) = Some (fst p)))"
proof -
  let ?e = "ValueError ''Input sheet must contain a 'Date' column.''"
  have e: "schema_error = ?e" by (simp add: schema_error_def)
  have a: "\<exists>out. load_data P sh out" by (rule load_data_total)
  have b: "''Date'' \<notin> set (sh_columns sh) \<longrightarrow>
      (\<forall>out. load_data P sh out \<longleftrightarrow> out = Inl ?e) \<and>
      (\<forall>out. main P B sh out \<longleftrightarrow> out = Inl ?e)"
    using load_data_absent [of sh P] main_absent [of sh P B] unfolding e by blast
  have c: "''Date'' \<in> set (sh_columns sh) \<longrightarrow>
      \<not> load_data P sh (Inl ?e) \<and>
      (\<forall>i. i < length (sh_columns sh) \<and> sh_columns sh ! i = ''Date'' \<and>
           ''Date'' \<notin> set (take i (sh_columns sh)) \<and>
           (\<forall>r \<in> set (sh_rows sh). i < length r \<and> P (r ! i) \<noteq> None) \<longrightarrow>
         (\<exists>l. load_data P sh (Inr l)))"
    using load_data_present [of sh P] load_data_returns [of _ sh P] unfolding e by blast
  have d: "\<forall>l. load_data P sh (Inr l) \<longrightarrow>
      ''Date'' \<in> set (sh_columns sh) \<and>
      ld_columns l = sh_columns sh \<and>
      length (ld_rows l) = length (sh_rows sh) \<and>
      mset (map snd (ld_rows l)) = mset (sh_rows sh) \<and>
      sorted_wrt
        (\<lambda>p q. year (fst p) < year (fst q) \<or>
           (year (fst p) = year (fst q) \<and>
            (month (fst p) < month (fst q) \<or>
             (month (fst p) = month (fst q) \<and>
              (day (fst p) < day (fst q) \<or>
               (day (fst p) = day (fst q) \<and> hour (fst p) \<le> hour (fst q)))))))
        (ld_rows l) \<and>
      (\<forall>p \<in> set (ld_rows l). \<forall>i.
         i < length (sh_columns sh) \<and> i < length (snd p) \<and> sh_columns sh ! i = ''Date'' \<and>
         ''Date'' \<notin> set (take i (sh_columns sh)) \<longrightarrow>
         P (snd p ! i) = Some (fst p))"
  proof (intro allI impI)
    fix l assume l: "load_data P sh (Inr l)"
    then have 1: "''Date'' \<in> set (sh_columns sh)"
      by (auto simp: load_data_iff split: if_splits)
    from load_data_sorted [OF l] have 2: "ld_columns l = sh_columns sh"
      and 3: "length (ld_rows l) = length (sh_rows sh)"
      and 4: "mset (map snd (ld_rows l)) = mset (sh_rows sh)" by blast+
    note 5 = load_data_ascending [OF l]
    have 6: "\<forall>p \<in> set (ld_rows l). \<forall>i.
         i < length (sh_columns sh) \<and> i < length (snd p) \<and> sh_columns sh ! i = ''Date'' \<and>
         ''Date'' \<notin> set (take i (sh_columns sh)) \<longrightarrow>
         P (snd p ! i) = Some (fst p)"
      using load_data_parsed [OF l] by blast
    from 1 2 3 4 5 6 show "''Date'' \<in> set (sh_columns sh) \<and>
      ld_columns l = sh_columns sh \<and>
      length (ld_rows l) = length (sh_rows sh) \<and>
      mset (map snd (ld_rows l)) = mset (sh_rows sh) \<and>
      sorted_wrt
        (\<lambda>p q. year (fst p) < year (fst q) \<or>
           (year (fst p) = year (fst q) \<and>
            (month (fst p) < month (fst q) \<or>
             (month (fst p) = month (fst q) \<and>
              (day (fst p) < day (fst q) \<or>
               (day (fst p) = day (fst q) \<and> hour (fst p) \<le> hour (fst q)))))))
        (ld_rows l) \<and>
      (\<forall>p \<in> set (ld_rows l). \<forall>i.
         i < length (sh_columns sh) \<and> i < length (snd p) \<and> sh_columns sh ! i = ''Date'' \<and>
         ''Date'' \<notin> set (take i (sh_columns sh)) \<longrightarrow>
         P (snd p ! i) = Some (fst p))"
      by (intro conjI)
  qed
  from a b c d show ?thesis by (intro conjI)
qed

text \<open>
  On the sheet with the rows of February and January, the loader has one outcome: the
  frame with the row of January first.
\<close>

lemma sort_values_two:
  assumes "key b < key a"
  shows "sort_values key True [a, b] rs \<longleftrightarrow> rs = [b, a]"
proof
  assume s: "sort_values key True [a, b] rs"
  then have m: "mset rs = {#a, b#}" by (simp add: sort_values_def add_mset_commute)
  then have "length rs = 2" by (metis size_mset size_add_mset size_empty numeral_2_eq_2)
  then obtain x y where rs: "rs = [x, y]"
    by (auto simp: numeral_2_eq_2 length_Suc_conv)
  with m have "x = a \<and> y = b \<or> x = b \<and> y = a"
    by (auto simp: add_eq_conv_ex)
  moreover from s rs have "key x \<le> key y" by (simp add: sort_values_def)
  ultimately show "rs = [b, a]" using assms rs by auto
next
  assume "rs = [b, a]"
  with assms show "sort_values key True [a, b] rs"
    by (simp add: sort_values_def less_imp_le)
qed

lemma load_unordered:
  "load_data stamp_only sheet_unordered out \<longleftrightarrow>
     out = Inr \<lparr>ld_columns = [''A'', ''Date''],
                ld_rows = [(t_jan, [Num 10, Stamp t_jan]), (t_feb, [Num 12, Stamp t_feb])]\<rparr>"
proof -
  have t: "those (map (\<lambda>r. stamp_only (date_cell (sh_columns sheet_unordered) r))
             (sh_rows sheet_unordered)) = Some [t_feb, t_jan]"
    by (simp add: sheet_unordered_def date_cell_def stamp_only_def)
  have k: "timestamp_key (fst (t_jan, [Num 10, Stamp t_jan]))
             < timestamp_key (fst (t_feb, [Num 12, Stamp t_feb]))"
    by (simp add: timestamp_key_def t_jan_def t_feb_def less_prod_def)
  have z: "zip [t_feb, t_jan] (sh_rows sheet_unordered) =
      [(t_feb, [Num 12, Stamp t_feb]), (t_jan, [Num 10, Stamp t_jan])]"
    by (simp add: sheet_unordered_def)
  have d: "''Date'' \<in> set (sh_columns sheet_unordered)" by (simp add: sheet_unordered_def)
  have c: "sh_columns sheet_unordered = [''A'', ''Date'']" by (simp add: sheet_unordered_def)
  show ?thesis
    unfolding load_data_iff t using d
    by (simp only: if_False not_not option.case z
          sort_values_two [of "\<lambda>p. timestamp_key (fst p)", OF k] c)
       auto
qed

theorem C8_loader_schema_and_order_witness:
  "''Date'' \<notin> set (sh_columns sheet_no_date) \<and>
   load_data stamp_only sheet_no_date
     (Inl (ValueError ''Input sheet must contain a 'Date' column.'')) \<and>
   main stamp_only (\<lambda>l n. n = length (ld_rows l)) sheet_no_date
     (Inl (ValueError ''Input sheet must contain a 'Date' column.'')) \<and>
   \<not> main stamp_only (\<lambda>l n. n = length (ld_rows l)) sheet_no_date (Inr 1) \<and>
   ''Date'' \<in> set (sh_columns sheet_unordered) \<and>
   \<not> load_data stamp_only sheet_unordered
     (Inl (ValueError ''Input sheet must contain a 'Date' column.'')) \<and>
   (\<forall>out. load_data stamp_only sheet_unordered out \<longleftrightarrow>
      out = Inr \<lparr>ld_columns = [''A'', ''Date''],
                 ld_rows = [(t_jan, [Num 10, Stamp t_jan]), (t_feb, [Num 12, Stamp t_feb])]\<rparr>) \<and>
   stamp_only ([Num 10, Stamp t_jan] ! 1) = Some t_jan \<and>
   stamp_only ([Num 12, Stamp t_feb] ! 1) = Some t_feb \<and>
   month t_jan < month t_feb \<and> hour t_feb < hour t_jan"
proof -
  let ?B = "\<lambda>l n. n = length (ld_rows l)"
  let ?e = "ValueError ''Input sheet must contain a 'Date' column.''"
  let ?l = "\<lparr>ld_columns = [''A'', ''Date''],
             ld_rows = [(t_jan, [Num 10, Stamp t_jan]), (t_feb, [Num 12, Stamp t_feb])]\<rparr>"
  have n: "''Date'' \<notin> set (sh_columns sheet_no_date)"
    by (simp add: sheet_no_date_def)
  have y: "''Date'' \<in> set (sh_columns sheet_unordered)"
    by (simp add: sheet_unordered_def)
  note no = C8_loader_schema_and_order [of stamp_only sheet_no_date ?B]
  note two = C8_loader_schema_and_order [of stamp_only sheet_unordered ?B]
  from no n have 1: "load_data stamp_only sheet_no_date (Inl ?e)" by blast
  from no n have 2: "main stamp_only ?B sheet_no_date (Inl ?e)" by blast
  from no n have "main stamp_only ?B sheet_no_date (Inr 1) \<longleftrightarrow> Inr 1 = (Inl ?e :: error + nat)"
    by blast
  then have 3: "\<not> main stamp_only ?B sheet_no_date (Inr 1)" by simp
  from two y have 4: "\<not> load_data stamp_only sheet_unordered (Inl ?e)" by blast
  have l: "load_data stamp_only sheet_unordered (Inr ?l)" by (simp add: load_unordered)
  have c: "1 < length (sh_columns sheet_unordered) \<and> sh_columns sheet_unordered ! 1 = ''Date'' \<and>
      ''Date'' \<notin> set (take 1 (sh_columns sheet_unordered))"
    by (simp add: sheet_unordered_def)
  from two l have "\<forall>p \<in> set (ld_rows ?l). \<forall>i.
         i < length (sh_columns sheet_unordered) \<and> i < length (snd p) \<and>
         sh_columns sheet_unordered ! i = ''Date'' \<and>
         ''Date'' \<notin> set (take i (sh_columns sheet_unordered)) \<longrightarrow>
         stamp_only (snd p ! i) = Some (fst p)"
    by blast
  with c have 5: "stamp_only ([Num 10, Stamp t_jan] ! 1) = Some t_jan"
    and 6: "stamp_only ([Num 12, Stamp t_feb] ! 1) = Some t_feb"
    by auto
  have 7: "month t_jan < month t_feb \<and> hour t_feb < hour t_jan"
    by (simp add: t_jan_def t_feb_def)
  from n y 1 2 3 4 5 6 7 load_unordered show ?thesis by blast
qed

section \<open>The views taken from the long form\<close>

lemma stacked_group:
  "map Price (filter (\<lambda>r. f (Date r) (Zone r) = k) (stacked df)) = present (cells_with df f k)"
proof -
  have "map Some (map Price (filter (\<lambda>r. f (Date r) (Zone r) = k) (stacked df))) =
        map (\<lambda>(d, z, c). c) (filter (\<lambda>(d, z, c). c \<noteq> None \<and> f d z = k) (cells_of df))"
    using stacked_group_cells [of f k df] by (simp add: comp_def)
  also have "\<dots> = filter (\<lambda>c. c \<noteq> None) (cells_with df f k)"
    by (simp add: cells_with_def filter_map comp_def case_prod_unfold conj_commute)
  also have "\<dots> = map Some (present (cells_with df f k))"
    by (simp only: map_Some_present)
  finally have e: "map Some (map Price (filter (\<lambda>r. f (Date r) (Zone r) = k) (stacked df))) =
      map Some (present (cells_with df f k))" .
  show ?thesis by (rule map_injective [OF e]) simp
qed

lemma hod_cells:
  "hod (stacked df) =
     map (\<lambda>h. (h, mean (present (cells_with df (\<lambda>d z. hour d) h))))
       (sort (remdups (map (\<lambda>r. hour (Date r)) (stacked df))))"
  using stacked_group [of "\<lambda>d z. hour d" _ df]
  by (simp add: hod_def groupby_def comp_def)

lemma monthly_cells:
  "monthly (stacked df) =
     map (\<lambda>(z, y, m).
            \<lparr>m_Zone = z, m_Year = y, m_Month = m,
             m_Price = mean (present (cells_with df (\<lambda>d z. (z, year d, month d)) (z, y, m)))\<rparr>)
       (sort (remdups (map (\<lambda>r. (Zone r, year (Date r), month (Date r))) (stacked df))))"
  using stacked_group [of "\<lambda>d z. (z, year d, month d)" _ df]
  by (simp add: monthly_def groupby_def comp_def case_prod_unfold)

lemma dow_cells:
  "dow (stacked df) =
     map (\<lambda>n. (n, mean (present (cells_with df (\<lambda>d z. day_name d) n)))) dow_order"
proof -
  define keys where "keys = sort (remdups (map (\<lambda>r. day_name (Date r)) (stacked df)))"
  let ?h = "\<lambda>n. mean (present (cells_with df (\<lambda>d z. day_name d) n))"
  have tbl: "map (\<lambda>(n, g). (n, mean (map Price g)))
               (groupby (\<lambda>r. day_name (Date r)) (stacked df)) = map (\<lambda>k. (k, ?h k)) keys"
    using stacked_group [of "\<lambda>d z. day_name d" _ df]
    by (simp only: map_groupby keys_def)
  have row: "(case map_of (map (\<lambda>k. (k, ?h k)) keys) n of None \<Rightarrow> None | Some m \<Rightarrow> m) = ?h n"
    for n
  proof (cases "n \<in> set keys")
    case True
    then show ?thesis by (simp only: map_of_keys if_True option.case)
  next
    case False
    then have "filter (\<lambda>r. day_name (Date r) = n) (stacked df) = []"
      by (auto simp: keys_def filter_empty_conv)
    then have "present (cells_with df (\<lambda>d z. day_name d) n) = []"
      using stacked_group [of "\<lambda>d z. day_name d" n df] by simp
    with False show ?thesis
      by (simp only: map_of_keys if_False option.case) (simp add: mean_def)
  qed
  show ?thesis
    unfolding dow_def tbl reindex_def by (simp add: comp_def row)
qed

lemma seasonal_cells:
  assumes "list_all (\<lambda>r. 1 \<le> month (Date r) \<and> month (Date r) \<le> 12) (stacked df)"
  shows "seasonal (stacked df) =
           Inr (map (\<lambda>s. season_stats s
                       (present (cells_with df (\<lambda>d z. season_of_month (month d)) (Inr s))))
                  season_order)"
  using seasonal_rows [OF assms] stacked_group [of "\<lambda>d z. season_of_month (month d)" _ df]
  by simp

lemma overall_cells:
  "overall_kpis df =
     (let ps = present (map (\<lambda>(d, z, c). c) (cells_of df))
      in \<lparr>Hours = length (rows df), Zones = length (zone_cols df),
          ov_Mean = mean ps, ov_Median = median ps, ov_Min = min_of ps, ov_Max = max_of ps,
          ov_P95 = quantile (95 / 100) ps, ov_Stdev = std ps\<rparr>)"
proof -
  have "map Price (stacked df) = present (cells_with df (\<lambda>d z. ()) ())"
    using stacked_group [of "\<lambda>d z. ()" "()" df] by simp
  also have "cells_with df (\<lambda>d z. ()) () = map (\<lambda>(d, z, c). c) (cells_of df)"
    by (simp add: cells_with_def)
  finally show ?thesis by (simp add: overall_kpis_def)
qed

lemma extremes_cells:
  assumes "extremes (stacked df) (tp, bt)" and "r \<in> set tp \<union> set bt"
  shows "(Date r, Zone r, Some (Price r)) \<in> set (cells_of df)"
proof -
  from assms(1) obtain hi lo where "mset hi = mset (stacked df)" "mset lo = mset (stacked df)"
    and "tp = take 20 hi" "bt = take 20 lo"
    by (auto simp: extremes_iff sort_values_def)
  with assms(2) have "r \<in> set (stacked df)"
    by (metis Un_iff in_set_takeD mset_eq_setD)
  then have "(Date r, Zone r, Some (Price r)) \<in>
      set (map (\<lambda>r. (Date r, Zone r, Some (Price r))) (stacked df))" by force
  then show ?thesis by (simp only: stacked_cells) simp
qed

text \<open>
  C10. The long form holds exactly the cells of the frame that are not missing, in the
  order of the frame (row by row, column by column); it has as many records as the
  frame has values, so fewer than rows \<open>\<times>\<close> zones as soon as one cell is missing.
  Every view taken from the long form is computed over non-missing values only: for
  any grouping key \<open>f\<close> of a record's timestamp and zone, the prices of the group \<open>k\<close>
  are the values present among the cells whose timestamp and zone have key \<open>k\<close>. So
  the KPI block ranges over all values present in the frame, the zone summary's row
  of a zone over the values present in the zone's column, and the monthly, hourly,
  weekday and seasonal means over the values present in the cells of that month, hour,
  weekday or season; the rows of the extremes tables are records of cells that hold a
  value. All these views are total functions of the frame: a missing cell makes none
  of them fail.
\<close>

theorem C10_long_form_drops_missing:
  assumes "rectangular df"
  shows "map (\<lambda>r. (Date r, Zone r, Some (Price r))) (stacked df) =
           filter (\<lambda>(d, z, c). c \<noteq> None) (cells_of df) \<and>
         length (stacked df) = present_cells df \<and>
         (\<not> no_missing df \<longrightarrow>
            length (stacked df) < length (rows df) * length (zone_cols df)) \<and>
         map Price (filter (\<lambda>r. f (Date r) (Zone r) = k) (stacked df)) =
           present (cells_with df f k) \<and>
         overall_kpis df =
           (let ps = present (map (\<lambda>(d, z, c). c) (cells_of df))
            in \<lparr>Hours = length (rows df), Zones = length (zone_cols df),
                ov_Mean = mean ps, ov_Median = median ps, ov_Min = min_of ps,
                ov_Max = max_of ps, ov_P95 = quantile (95 / 100) ps, ov_Stdev = std ps\<rparr>) \<and>
         zone_agg (stacked df) =
           map (\<lambda>z. zone_stats z (present (column df z)))
             (sort (remdups (map Zone (stacked df)))) \<and>
         monthly (stacked df) =
           map (\<lambda>(z, y, m).
                  \<lparr>m_Zone = z, m_Year = y, m_Month = m,
                   m_Price = mean (present
                     (cells_with df (\<lambda>d z. (z, year d, month d)) (z, y, m)))\<rparr>)
             (sort (remdups (map (\<lambda>r. (Zone r, year (Date r), month (Date r))) (stacked df)))) \<and>
         hod (stacked df) =
           map (\<lambda>h. (h, mean (present (cells_with df (\<lambda>d z. hour d) h))))
             (sort (remdups (map (\<lambda>r. hour (Date r)) (stacked df)))) \<and>
         dow (stacked df) =
           map (\<lambda>n. (n, mean (present (cells_with df (\<lambda>d z. day_name d) n)))) dow_order \<and>
         (list_all (\<lambda>r. 1 \<le> month (Date r) \<and> month (Date r) \<le> 12) (stacked df) \<longrightarrow>
            seasonal (stacked df) =
              Inr (map (\<lambda>s. season_stats s
                          (present (cells_with df (\<lambda>d z. season_of_month (month d)) (Inr s))))
                     season_order)) \<and>
         (\<forall>tp bt. extremes (stacked df) (tp, bt) \<longrightarrow>
            (\<forall>r \<in> set tp \<union> set bt. (Date r, Zone r, Some (Price r)) \<in> set (cells_of df)))"
proof -
  note stacked_cells [of df]
  moreover note length_stacked [OF assms]
  moreover have "\<not> no_missing df \<longrightarrow>
      length (stacked df) < length (rows df) * length (zone_cols df)"
    using length_stacked_less [OF assms] by blast
  moreover note stacked_group [of f k df]
  moreover note overall_cells [of df]
  moreover note zone_agg_columns [of df]
  moreover note monthly_cells [of df]
  moreover note hod_cells [of df]
  moreover note dow_cells [of df]
  moreover have "list_all (\<lambda>r. 1 \<le> month (Date r) \<and> month (Date r) \<le> 12) (stacked df) \<longrightarrow>
            seasonal (stacked df) =
              Inr (map (\<lambda>s. season_stats s
                          (present (cells_with df (\<lambda>d z. season_of_month (month d)) (Inr s))))
                     season_order)"
    using seasonal_cells [of df] by blast
  moreover have "\<forall>tp bt. extremes (stacked df) (tp, bt) \<longrightarrow>
            (\<forall>r \<in> set tp \<union> set bt. (Date r, Zone r, Some (Price r)) \<in> set (cells_of df))"
    using extremes_cells [of df] by blast
  ultimately show ?thesis by (intro conjI)
qed

theorem C10_long_form_drops_missing_witness:
  "rectangular df_gap \<and> \<not> no_missing df_gap \<and>
   length (stacked df_gap) = present_cells df_gap \<and>
   present_cells df_gap = 1 \<and>
   length (stacked df_gap) < length (rows df_gap) * length (zone_cols df_gap) \<and>
   column df_gap ''B'' = [None] \<and>
   zone_agg (stacked df_gap) = [zone_stats ''A'' [10]] \<and>
   hod (stacked df_gap) = [(0, Some 10)]"
proof -
  have r: "rectangular df_gap" by (simp add: rectangular_def df_gap_def)
  have n: "\<not> no_missing df_gap" by (simp add: no_missing_def df_gap_def)
  have p: "present_cells df_gap = 1" by (simp add: present_cells_def df_gap_def)
  have c: "column df_gap ''B'' = [None]" by (simp add: column_def cells_of_def df_gap_def)
  have z: "map Zone (stacked df_gap) = [''A'']"
    by (simp add: stacked_def stack_row_def df_gap_def List.map_filter_simps)
  have h: "map (\<lambda>r. hour (Date r)) (stacked df_gap) = [0]"
    by (simp add: stacked_def stack_row_def df_gap_def List.map_filter_simps t0_def)
  have a: "present (column df_gap ''A'') = [10]"
    by (simp add: column_def cells_of_def df_gap_def)
  have ch: "present (cells_with df_gap (\<lambda>d z. hour d) 0) = [10]"
    by (simp add: cells_with_def cells_of_def df_gap_def t0_def)
  note w = C10_long_form_drops_missing [OF r, of "\<lambda>d z. z" "''A''"]
  from w have 1: "length (stacked df_gap) = present_cells df_gap" by blast
  from w n have 2: "length (stacked df_gap) < length (rows df_gap) * length (zone_cols df_gap)"
    by blast
  from w have "zone_agg (stacked df_gap) =
           map (\<lambda>z. zone_stats z (present (column df_gap z)))
             (sort (remdups (map Zone (stacked df_gap))))" by blast
  then have 3: "zone_agg (stacked df_gap) = [zone_stats ''A'' [10]]" by (simp add: z a)
  from w have "hod (stacked df_gap) =
           map (\<lambda>h. (h, mean (present (cells_with df_gap (\<lambda>d z. hour d) h))))
             (sort (remdups (map (\<lambda>r. hour (Date r)) (stacked df_gap))))" by blast
  then have 4: "hod (stacked df_gap) = [(0, Some 10)]" by (simp add: h ch mean_def)
  from r n p c 1 2 3 4 show ?thesis by blast
qed

section \<open>Inter-zonal spread: the table\<close>

lemma max_of_iff:
  "max_of (present cs) = Some m \<longleftrightarrow> Some m \<in> set cs \<and> (\<forall>v. Some v \<in> set cs \<longrightarrow> v \<le> m)"
proof (cases "present cs = []")
  case True
  then have "set (present cs) = {}" by simp
  then have "\<And>v. Some v \<notin> set cs" by (auto simp: set_present)
  with True show ?thesis by (auto simp: max_of_def)
next
  case False
  then have ne: "set (present cs) \<noteq> {}" by simp
  have fin: "finite (set (present cs))" by simp
  have "Max (set (present cs)) = m \<longleftrightarrow> m \<in> set (present cs) \<and> (\<forall>v \<in> set (present cs). v \<le> m)"
    using Max_eq_iff [OF fin ne] by auto
  with False show ?thesis by (auto simp: max_of_def set_present)
qed

lemma min_of_iff:
  "min_of (present cs) = Some m \<longleftrightarrow> Some m \<in> set cs \<and> (\<forall>v. Some v \<in> set cs \<longrightarrow> m \<le> v)"
proof (cases "present cs = []")
  case True
  then have "set (present cs) = {}" by simp
  then have "\<And>v. Some v \<notin> set cs" by (auto simp: set_present)
  with True show ?thesis by (auto simp: min_of_def)
next
  case False
  then have ne: "set (present cs) \<noteq> {}" by simp
  have fin: "finite (set (present cs))" by simp
  have "Min (set (present cs)) = m \<longleftrightarrow> m \<in> set (present cs) \<and> (\<forall>v \<in> set (present cs). m \<le> v)"
    using Min_eq_iff [OF fin ne] by auto
  with False show ?thesis by (auto simp: min_of_def set_present)
qed

lemma present_single:
  "filter (\<lambda>c. c \<noteq> None) cs = [Some v] \<Longrightarrow> present cs = [v]"
proof -
  assume "filter (\<lambda>c. c \<noteq> None) cs = [Some v]"
  then have "map Some (present cs) = map Some [v]" by (simp add: map_Some_present)
  then show ?thesis by (rule map_injective) simp
qed

text \<open>
  C5. The spread table has one row per row of the frame, with the row's timestamp,
  whatever cells are missing. Its maximum is the greatest and its minimum the least of
  the values that the cells of the row hold, the missing cells being left out; the
  spread is the maximum less the minimum; all three are missing exactly when the row
  holds no value at all; and a row that holds exactly one value has this value as
  maximum and as minimum, and spread 0.
\<close>

theorem C5_spread_skips_missing:
  assumes "i < length (rows df)"
  shows "length (spread df) = length (rows df) \<and>
         sp_Date (spread df ! i) = fst (rows df ! i) \<and>
         (\<forall>m. sp_Max (spread df ! i) = Some m \<longleftrightarrow>
                Some m \<in> set (snd (rows df ! i)) \<and>
                (\<forall>v. Some v \<in> set (snd (rows df ! i)) \<longrightarrow> v \<le> m)) \<and>
         (\<forall>m. sp_Min (spread df ! i) = Some m \<longleftrightarrow>
                Some m \<in> set (snd (rows df ! i)) \<and>
                (\<forall>v. Some v \<in> set (snd (rows df ! i)) \<longrightarrow> m \<le> v)) \<and>
         (\<forall>mx mn. sp_Max (spread df ! i) = Some mx \<and> sp_Min (spread df ! i) = Some mn \<longrightarrow>
                Spread (spread df ! i) = Some (mx - mn)) \<and>
         ((\<forall>v. Some v \<notin> set (snd (rows df ! i))) \<longleftrightarrow> Spread (spread df ! i) = None) \<and>
         (\<forall>v. filter (\<lambda>c. c \<noteq> None) (snd (rows df ! i)) = [Some v] \<longrightarrow>
                sp_Max (spread df ! i) = Some v \<and> sp_Min (spread df ! i) = Some v \<and>
                Spread (spread df ! i) = Some 0)"
proof -
  let ?cs = "snd (rows df ! i)"
  let ?s = "spread df ! i"
  have s: "?s = spread_of_row (rows df ! i)"
    using assms by (simp add: spread_def)
  have mx: "sp_Max ?s = max_of (present ?cs)" and mn: "sp_Min ?s = min_of (present ?cs)"
    and sp: "Spread ?s = nan_sub (max_of (present ?cs)) (min_of (present ?cs))"
    and dt: "sp_Date ?s = fst (rows df ! i)"
    by (simp_all add: s spread_of_row_def Let_def)
  have 1: "length (spread df) = length (rows df)" by (simp add: spread_def)
  have 3: "\<forall>m. sp_Max ?s = Some m \<longleftrightarrow>
      Some m \<in> set ?cs \<and> (\<forall>v. Some v \<in> set ?cs \<longrightarrow> v \<le> m)"
    by (simp only: mx max_of_iff) simp
  have 4: "\<forall>m. sp_Min ?s = Some m \<longleftrightarrow>
      Some m \<in> set ?cs \<and> (\<forall>v. Some v \<in> set ?cs \<longrightarrow> m \<le> v)"
    by (simp only: mn min_of_iff) simp
  have 5: "\<forall>mx mn. sp_Max ?s = Some mx \<and> sp_Min ?s = Some mn \<longrightarrow> Spread ?s = Some (mx - mn)"
    by (simp add: mx mn sp nan_sub_def)
  have 6: "(\<forall>v. Some v \<notin> set ?cs) \<longleftrightarrow> Spread ?s = None"
  proof (cases "present ?cs = []")
    case True
    then have "set (present ?cs) = {}" by simp
    then have "\<forall>v. Some v \<notin> set ?cs" by (auto simp: set_present)
    with True show ?thesis by (simp add: sp max_of_def nan_sub_def)
  next
    case False
    then have "set (present ?cs) \<noteq> {}" by simp
    then have "\<exists>v. Some v \<in> set ?cs" by (auto simp: set_present)
    with False show ?thesis by (auto simp: sp max_of_def min_of_def nan_sub_def)
  qed
  have 7: "\<forall>v. filter (\<lambda>c. c \<noteq> None) ?cs = [Some v] \<longrightarrow>
      sp_Max ?s = Some v \<and> sp_Min ?s = Some v \<and> Spread ?s = Some 0"
  proof (intro allI impI)
    fix v assume "filter (\<lambda>c. c \<noteq> None) ?cs = [Some v]"
    then have "present ?cs = [v]" by (rule present_single)
    then show "sp_Max ?s = Some v \<and> sp_Min ?s = Some v \<and> Spread ?s = Some 0"
      by (simp add: mx mn sp max_of_def min_of_def nan_sub_def)
  qed
  from 1 dt 3 4 5 6 7 show ?thesis by blast
qed

text \<open>
  The theorem at a frame of two rows: the first holds 10 and 25 around a missing cell,
  the second holds 7 alone.
\<close>

theorem C5_spread_skips_missing_witness:
  "spread df_spread =
     [\<lparr>sp_Date = t0, sp_Max = Some 25, sp_Min = Some 10, Spread = Some 15\<rparr>,
      \<lparr>sp_Date = t1, sp_Max = Some 7, sp_Min = Some 7, Spread = Some 0\<rparr>] \<and>
   filter (\<lambda>c. c \<noteq> None) (snd (rows df_spread ! 1)) = [Some 7] \<and>
   sp_Max (spread df_spread ! 0) = Some 25 \<and>
   sp_Min (spread df_spread ! 0) = Some 10 \<and>
   Spread (spread df_spread ! 0) = Some 15 \<and>
   Spread (spread df_spread ! 1) = Some 0"
proof -
  have l0: "0 < length (rows df_spread)" and l1: "1 < length (rows df_spread)"
    by (simp_all add: df_spread_def)
  have r0: "snd (rows df_spread ! 0) = [Some 10, None, Some 25]"
    and r1: "snd (rows df_spread ! 1) = [None, Some 7, None]"
    by (simp_all add: df_spread_def)
  note a = C5_spread_skips_missing [OF l0]
  note b = C5_spread_skips_missing [OF l1]
  have "Some 25 \<in> set (snd (rows df_spread ! 0)) \<and>
        (\<forall>v. Some v \<in> set (snd (rows df_spread ! 0)) \<longrightarrow> v \<le> (25::real))"
    by (auto simp: r0)
  with a have mx: "sp_Max (spread df_spread ! 0) = Some 25" by blast
  have "Some 10 \<in> set (snd (rows df_spread ! 0)) \<and>
        (\<forall>v. Some v \<in> set (snd (rows df_spread ! 0)) \<longrightarrow> (10::real) \<le> v)"
    by (auto simp: r0)
  with a have mn: "sp_Min (spread df_spread ! 0) = Some 10" by blast
  from a mx mn have "Spread (spread df_spread ! 0) = Some (25 - 10)" by blast
  then have sp: "Spread (spread df_spread ! 0) = Some 15" by simp
  have f: "filter (\<lambda>c. c \<noteq> None) (snd (rows df_spread ! 1)) = [Some 7]"
    unfolding r1 by (simp del: not_None_eq)
  with b have s1: "Spread (spread df_spread ! 1) = Some 0" by blast
  have all: "spread df_spread =
     [\<lparr>sp_Date = t0, sp_Max = Some 25, sp_Min = Some 10, Spread = Some 15\<rparr>,
      \<lparr>sp_Date = t1, sp_Max = Some 7, sp_Min = Some 7, Spread = Some 0\<rparr>]"
    by (simp add: spread_def df_spread_def spread_of_row_def Let_def max_of_def min_of_def
        nan_sub_def)
  from all f mx mn sp s1 show ?thesis by blast
qed

section \<open>Seasonal statistics: the table\<close>

lemma season_stats_fields:
  "Season (season_stats s ps) = s"
  "s_mean (season_stats s ps) = (if ps = [] then None else Some (sum_list ps / real (length ps)))"
  "s_median (season_stats s ps) =
     (if ps = [] then None
      else Some (if odd (length ps) then sort ps ! (length ps div 2)
                 else (sort ps ! (length ps div 2 - 1) + sort ps ! (length ps div 2)) / 2))"
  "s_std (season_stats s ps) =
     (if length ps < 2 then None
      else Some (sqrt (sum_list (map (\<lambda>x. (x - sum_list ps / real (length ps))\<^sup>2) ps)
                        / (real (length ps) - 1))))"
  "s_min (season_stats s ps) = (if ps = [] then None else Some (Min (set ps)))"
  "s_max (season_stats s ps) = (if ps = [] then None else Some (Max (set ps)))"
  by (simp_all add: season_stats_def mean_def median_def Let_def min_of_def max_of_def
      std_sample)

text \<open>
  C7. When every record's month is a calendar month, the seasonal table has exactly
  the four rows Winter, Spring, Summer, Autumn, in this order. The row of a season is
  computed from the prices of the records whose month is one of the season's three
  months (December, January, February for Winter; March, April, May for Spring; June,
  July, August for Summer; September, October, November for Autumn): its mean is their
  sum over their number, its median the middle order statistic (the mean of the two
  middle ones for an even number), its standard deviation the root of the sum of
  squared deviations from the mean over one less than their number, its minimum and
  maximum the least and greatest of them. A season with no record has all five
  statistics missing, none of them 0, and a season with one record has no standard
  deviation. Every record falls in exactly one season.
\<close>

theorem C7_seasonal_groups:
  assumes "list_all (\<lambda>r. 1 \<le> month (Date r) \<and> month (Date r) \<le> 12) long"
  shows "(\<exists>rows. seasonal long = Inr rows \<and> length rows = 4 \<and>
           (\<forall>i<4.
              let months = [[12, 1, 2], [3, 4, 5], [6, 7, 8], [9, 10, 11]] ! i;
                  ps = map Price (filter (\<lambda>r. month (Date r) \<in> set months) long);
                  n = length ps;
                  row = rows ! i
              in Season row = [''Winter'', ''Spring'', ''Summer'', ''Autumn''] ! i \<and>
                 s_mean row = (if ps = [] then None else Some (sum_list ps / real n)) \<and>
                 s_median row =
                   (if ps = [] then None
                    else Some (if odd n then sort ps ! (n div 2)
                               else (sort ps ! (n div 2 - 1) + sort ps ! (n div 2)) / 2)) \<and>
                 s_std row =
                   (if n < 2 then None
                    else Some (sqrt (sum_list (map (\<lambda>x. (x - sum_list ps / real n)\<^sup>2) ps)
                                      / (real n - 1)))) \<and>
                 s_min row = (if ps = [] then None else Some (Min (set ps))) \<and>
                 s_max row = (if ps = [] then None else Some (Max (set ps))))) \<and>
         length (filter (\<lambda>r. month (Date r) \<in> {12, 1, 2}) long) +
         length (filter (\<lambda>r. month (Date r) \<in> {3, 4, 5}) long) +
         length (filter (\<lambda>r. month (Date r) \<in> {6, 7, 8}) long) +
         length (filter (\<lambda>r. month (Date r) \<in> {9, 10, 11}) long) = length long"
proof -
  let ?W = "map Price (filter (\<lambda>r. month (Date r) \<in> set [12, 1, 2]) long)"
  let ?P = "map Price (filter (\<lambda>r. month (Date r) \<in> set [3, 4, 5]) long)"
  let ?S = "map Price (filter (\<lambda>r. month (Date r) \<in> set [6, 7, 8]) long)"
  let ?A = "map Price (filter (\<lambda>r. month (Date r) \<in> set [9, 10, 11]) long)"
  let ?rows = "[season_stats ''Winter'' ?W, season_stats ''Spring'' ?P,
                season_stats ''Summer'' ?S, season_stats ''Autumn'' ?A]"
  have "seasonal long =
           Inr (map (\<lambda>s. season_stats s
                       (map Price (filter (\<lambda>r. season_of_month (month (Date r)) = Inr s) long)))
                  season_order)"
    using assms by (rule seasonal_rows)
  then have rows: "seasonal long = Inr ?rows"
    by (simp only: season_order_def list.map season_of_month_cases) simp
  have each: "\<forall>i<4.
      let months = [[12, 1, 2], [3, 4, 5], [6, 7, 8], [9, 10, 11]] ! i;
          ps = map Price (filter (\<lambda>r. month (Date r) \<in> set months) long);
          n = length ps;
          row = ?rows ! i
      in Season row = [''Winter'', ''Spring'', ''Summer'', ''Autumn''] ! i \<and>
         s_mean row = (if ps = [] then None else Some (sum_list ps / real n)) \<and>
         s_median row =
           (if ps = [] then None
            else Some (if odd n then sort ps ! (n div 2)
                       else (sort ps ! (n div 2 - 1) + sort ps ! (n div 2)) / 2)) \<and>
         s_std row =
           (if n < 2 then None
            else Some (sqrt (sum_list (map (\<lambda>x. (x - sum_list ps / real n)\<^sup>2) ps)
                              / (real n - 1)))) \<and>
         s_min row = (if ps = [] then None else Some (Min (set ps))) \<and>
         s_max row = (if ps = [] then None else Some (Max (set ps)))"
  proof (intro allI impI)
    fix i :: nat assume "i < 4"
    then consider "i = 0" | "i = 1" | "i = 2" | "i = 3" by linarith
    then show "let months = [[12, 1, 2], [3, 4, 5], [6, 7, 8], [9, 10, 11]] ! i;
          ps = map Price (filter (\<lambda>r. month (Date r) \<in> set months) long);
          n = length ps;
          row = ?rows ! i
      in Season row = [''Winter'', ''Spring'', ''Summer'', ''Autumn''] ! i \<and>
         s_mean row = (if ps = [] then None else Some (sum_list ps / real n)) \<and>
         s_median row =
           (if ps = [] then None
            else Some (if odd n then sort ps ! (n div 2)
                       else (sort ps ! (n div 2 - 1) + sort ps ! (n div 2)) / 2)) \<and>
         s_std row =
           (if n < 2 then None
            else Some (sqrt (sum_list (map (\<lambda>x. (x - sum_list ps / real n)\<^sup>2) ps)
                              / (real n - 1)))) \<and>
         s_min row = (if ps = [] then None else Some (Min (set ps))) \<and>
         s_max row = (if ps = [] then None else Some (Max (set ps)))"
    proof cases
      case 1
      show ?thesis unfolding 1 Let_def by (simp add: season_stats_fields)
    next
      case 2
      show ?thesis unfolding 2 Let_def by (simp add: season_stats_fields)
    next
      case 3
      show ?thesis unfolding 3 Let_def by (simp add: season_stats_fields numeral_2_eq_2)
    next
      case 4
      show ?thesis unfolding 4 Let_def by (simp add: season_stats_fields numeral_3_eq_3)
    qed
  qed
  have "length ?rows = 4" by simp
  with rows each have ex: "\<exists>rows. seasonal long = Inr rows \<and> length rows = 4 \<and>
           (\<forall>i<4.
              let months = [[12, 1, 2], [3, 4, 5], [6, 7, 8], [9, 10, 11]] ! i;
                  ps = map Price (filter (\<lambda>r. month (Date r) \<in> set months) long);
                  n = length ps;
                  row = rows ! i
              in Season row = [''Winter'', ''Spring'', ''Summer'', ''Autumn''] ! i \<and>
                 s_mean row = (if ps = [] then None else Some (sum_list ps / real n)) \<and>
                 s_median row =
                   (if ps = [] then None
                    else Some (if odd n then sort ps ! (n div 2)
                               else (sort ps ! (n div 2 - 1) + sort ps ! (n div 2)) / 2)) \<and>
                 s_std row =
                   (if n < 2 then None
                    else Some (sqrt (sum_list (map (\<lambda>x. (x - sum_list ps / real n)\<^sup>2) ps)
                                      / (real n - 1)))) \<and>
                 s_min row = (if ps = [] then None else Some (Min (set ps))) \<and>
                 s_max row = (if ps = [] then None else Some (Max (set ps))))"
    by blast
  from ex season_partition [OF assms] show ?thesis by blast
qed

theorem C7_seasonal_groups_witness:
  "list_all (\<lambda>r. 1 \<le> month (Date r) \<and> month (Date r) \<le> 12) long_two_seasons \<and>
   seasonal long_two_seasons =
     Inr [\<lparr>Season = ''Winter'', s_mean = Some 12, s_median = Some 12, s_std = Some (sqrt 8),
           s_min = Some 10, s_max = Some 14\<rparr>,
          \<lparr>Season = ''Spring'', s_mean = None, s_median = None, s_std = None,
           s_min = None, s_max = None\<rparr>,
          \<lparr>Season = ''Summer'', s_mean = Some 30, s_median = Some 30, s_std = None,
           s_min = Some 30, s_max = Some 30\<rparr>,
          \<lparr>Season = ''Autumn'', s_mean = None, s_median = None, s_std = None,
           s_min = None, s_max = None\<rparr>]"
proof -
  have v: "list_all (\<lambda>r. 1 \<le> month (Date r) \<and> month (Date r) \<le> 12) long_two_seasons"
    by (simp add: long_two_seasons_def)
  from C7_seasonal_groups [OF v] obtain rows where e: "seasonal long_two_seasons = Inr rows"
    and l: "length rows = 4"
    and f: "\<forall>i<4.
              let months = [[12, 1, 2], [3, 4, 5], [6, 7, 8], [9, 10, 11]] ! i;
                  ps = map Price (filter (\<lambda>r. month (Date r) \<in> set months) long_two_seasons);
                  n = length ps;
                  row = rows ! i
              in Season row = [''Winter'', ''Spring'', ''Summer'', ''Autumn''] ! i \<and>
                 s_mean row = (if ps = [] then None else Some (sum_list ps / real n)) \<and>
                 s_median row =
                   (if ps = [] then None
                    else Some (if odd n then sort ps ! (n div 2)
                               else (sort ps ! (n div 2 - 1) + sort ps ! (n div 2)) / 2)) \<and>
                 s_std row =
                   (if n < 2 then None
                    else Some (sqrt (sum_list (map (\<lambda>x. (x - sum_list ps / real n)\<^sup>2) ps)
                                      / (real n - 1)))) \<and>
                 s_min row = (if ps = [] then None else Some (Min (set ps))) \<and>
                 s_max row = (if ps = [] then None else Some (Max (set ps)))"
    by blast
  have r0: "rows ! 0 = \<lparr>Season = ''Winter'', s_mean = Some 12, s_median = Some 12,
      s_std = Some (sqrt 8), s_min = Some 10, s_max = Some 14\<rparr>"
    using f [rule_format, of 0]
    by (intro season_row.equality) (simp_all add: Let_def long_two_seasons_def)
  have r1: "rows ! 1 = \<lparr>Season = ''Spring'', s_mean = None, s_median = None,
      s_std = None, s_min = None, s_max = None\<rparr>"
    using f [rule_format, of 1]
    by (intro season_row.equality) (simp_all add: Let_def long_two_seasons_def)
  have r2: "rows ! 2 = \<lparr>Season = ''Summer'', s_mean = Some 30, s_median = Some 30,
      s_std = None, s_min = Some 30, s_max = Some 30\<rparr>"
    using f [rule_format, of 2]
    by (intro season_row.equality) (simp_all add: Let_def long_two_seasons_def)
  have r3: "rows ! 3 = \<lparr>Season = ''Autumn'', s_mean = None, s_median = None,
      s_std = None, s_min = None, s_max = None\<rparr>"
    using f [rule_format, of 3]
    by (intro season_row.equality) (simp_all add: Let_def long_two_seasons_def)
  have "rows = [rows ! 0, rows ! 1, rows ! 2, rows ! 3]"
    using l by (auto simp: numeral_eq_Suc length_Suc_conv)
  then have "rows = [\<lparr>Season = ''Winter'', s_mean = Some 12, s_median = Some 12,
      s_std = Some (sqrt 8), s_min = Some 10, s_max = Some 14\<rparr>,
      \<lparr>Season = ''Spring'', s_mean = None, s_median = None,
      s_std = None, s_min = None, s_max = None\<rparr>,
      \<lparr>Season = ''Summer'', s_mean = Some 30, s_median = Some 30,
      s_std = None, s_min = Some 30, s_max = Some 30\<rparr>,
      \<lparr>Season = ''Autumn'', s_mean = None, s_median = None,
      s_std = None, s_min = None, s_max = None\<rparr>]"
    unfolding r0 r1 r2 r3 .
  with e v show ?thesis by simp
qed

end
